theory Spec2Isabelle
  imports Main "HOL-Library.List_Lexorder" "HOL-Library.Char_ord"
begin

section \<open>The agent loop of ii-agent: \<^verbatim>\<open>src/ii_agent/agents/function_call.py\<close>\<close>

text \<open>
  The theory embeds \<^verbatim>\<open>FunctionCallAgent\<close>: its tool validation, its turn loop
  (\<^verbatim>\<open>run_impl\<close>), the run entry point (\<^verbatim>\<open>run_agent_async\<close>), \<^verbatim>\<open>cancel\<close>, and
  the event consumer (\<^verbatim>\<open>_process_messages\<close>). The object \<^verbatim>\<open>self\<close> is a record that
  every method takes and returns; a raised exception is a value, returned together with
  the state the object has at that moment.
\<close>

subsection \<open>Module constants (lines 25-32)\<close>

definition TOOL_RESULT_INTERRUPT_MESSAGE :: string where
  "TOOL_RESULT_INTERRUPT_MESSAGE = ''Tool execution interrupted by user.''"

definition AGENT_INTERRUPT_MESSAGE :: string where
  "AGENT_INTERRUPT_MESSAGE = ''Agent interrupted by user.''"

definition TOOL_CALL_INTERRUPT_FAKE_MODEL_RSP :: string where
  "TOOL_CALL_INTERRUPT_FAKE_MODEL_RSP =
     ''Tool execution interrupted by user. You can resume by providing a new instruction.''"

definition AGENT_INTERRUPT_FAKE_MODEL_RSP :: string where
  "AGENT_INTERRUPT_FAKE_MODEL_RSP =
     ''Agent interrupted by user. You can resume by providing a new instruction.''"

subsection \<open>Content blocks, turns and events\<close>

text \<open>
  The classes of \<^verbatim>\<open>ii_agent.llm.base\<close>, \<^verbatim>\<open>ii_agent.core.event\<close> and
  \<^verbatim>\<open>ii_agent.tools.base\<close> are imported by the module and not part of the sources at
  hand; their shape is the one the module uses (the fields it reads and the constructors
  it calls) and the one the specification gives in its data model. Structured tool input
  and schemas are opaque here and carried as strings.
\<close>

record ToolCallParameters =
  tool_call_id :: string
  tool_name :: string
  tool_input :: string

datatype block =
    TextResult string
  | AnthropicThinkingBlock string
  | ToolCall ToolCallParameters

type_synonym image_block = "string \<times> string"

datatype turn =
    UserTurn string "image_block list"
  | AssistantTurn "block list"
  | ToolResultTurn string string

datatype EventType =
    USER_MESSAGE
  | TOOL_CALL
  | TOOL_RESULT
  | AGENT_THINKING
  | AGENT_RESPONSE
  | AGENT_RESPONSE_INTERRUPTED

record RealtimeEvent =
  event_type :: EventType
  content :: "(string \<times> string) list"

record ToolParam =
  name :: string
  description :: string
  input_schema :: string

record ToolImplOutput =
  tool_output :: string
  tool_result_message :: string

datatype error =
    ToolDuplicated string
  | OnlyOneToolCall

subsection \<open>The history ledger\<close>

text \<open>
  Modelled from the spec: the class \<^verbatim>\<open>MessageHistory\<close> (\<^verbatim>\<open>ii_agent.llm.message_history\<close>)
  is not under src/. Section 4.1 of the specification gives its contract: the ledger is an
  ordered sequence of Turns, each \<^verbatim>\<open>add_\<close> method appends one Turn, \<^verbatim>\<open>clear\<close> empties it,
  and \<^verbatim>\<open>get_pending_tool_calls\<close> returns the tool invocations of the most recent assistant
  Turn that have no tool-result Turn yet.

  The field \<open>turns\<close> is the ledger. The field \<open>appended\<close> is a log of every Turn that was
  ever handed to an \<^verbatim>\<open>add_\<close> method, in order; no operation reads it, and neither
  truncation nor \<^verbatim>\<open>clear\<close> touches it. It is what "the Turns appended" refers to in the
  properties below.

  The truncation policy depends on a token budget that the specification leaves to the
  provider; it is a parameter \<open>tr\<close>, an arbitrary function on the sequence of Turns.
\<close>

record MessageHistory =
  turns :: "turn list"
  appended :: "turn list"

definition append_turn :: "turn \<Rightarrow> MessageHistory \<Rightarrow> MessageHistory" where
  "append_turn t h = h\<lparr>turns := turns h @ [t], appended := appended h @ [t]\<rparr>"

definition add_user_prompt :: "string \<Rightarrow> image_block list \<Rightarrow> MessageHistory \<Rightarrow> MessageHistory" where
  "add_user_prompt prompt image_blocks h = append_turn (UserTurn prompt image_blocks) h"

definition add_assistant_turn :: "block list \<Rightarrow> MessageHistory \<Rightarrow> MessageHistory" where
  "add_assistant_turn blocks h = append_turn (AssistantTurn blocks) h"

definition history_add_tool_call_result ::
  "ToolCallParameters \<Rightarrow> string \<Rightarrow> MessageHistory \<Rightarrow> MessageHistory" where
  "history_add_tool_call_result call result h =
     append_turn (ToolResultTurn (tool_call_id call) result) h"

definition history_truncate :: "(turn list \<Rightarrow> turn list) \<Rightarrow> MessageHistory \<Rightarrow> MessageHistory" where
  "history_truncate tr h = h\<lparr>turns := tr (turns h)\<rparr>"

definition clear_history :: "MessageHistory \<Rightarrow> MessageHistory" where
  "clear_history h = h\<lparr>turns := []\<rparr>"

fun tool_calls_of :: "block list \<Rightarrow> ToolCallParameters list" where
  "tool_calls_of [] = []"
| "tool_calls_of (ToolCall c # bs) = c # tool_calls_of bs"
| "tool_calls_of (_ # bs) = tool_calls_of bs"

text \<open>
  The ledger is scanned from its end: tool-result Turns met on the way are remembered by
  their call identifier, and the first assistant Turn met answers with its invocations
  that have no such result.
\<close>

fun pending_from :: "turn list \<Rightarrow> string list \<Rightarrow> ToolCallParameters list" where
  "pending_from [] answered = []"
| "pending_from (AssistantTurn blocks # older) answered =
     filter (\<lambda>c. tool_call_id c \<notin> set answered) (tool_calls_of blocks)"
| "pending_from (ToolResultTurn cid result # older) answered = pending_from older (cid # answered)"
| "pending_from (UserTurn prompt image_blocks # older) answered = pending_from older answered"

definition get_pending_tool_calls :: "MessageHistory \<Rightarrow> ToolCallParameters list" where
  "get_pending_tool_calls h = pending_from (rev (turns h)) []"

subsection \<open>The agent object and its collaborators\<close>

text \<open>
  The fields of \<^verbatim>\<open>self\<close> that the methods below read or write (\<^verbatim>\<open>__init__\<close>,
  lines 84-104). \<open>tools\<close> holds, for each registered tool, what its
  \<^verbatim>\<open>get_tool_param()\<close> returns. \<open>message_queue\<close> is the queue as the sequence of events
  put into it so far (\<^verbatim>\<open>put_nowait\<close> appends).

  Modelled from the spec: the class \<^verbatim>\<open>AgentToolManager\<close> is not under src/. Section 4.2
  of the specification says that a tool may signal that the task is finished, surfaced by
  \<^verbatim>\<open>should_stop()\<close> and \<^verbatim>\<open>get_final_answer()\<close>, and that \<^verbatim>\<open>reset()\<close> clears the
  accumulated signal. \<open>stop_signal\<close> is that state: \<open>Some answer\<close> once a tool has
  signalled, \<open>None\<close> after a reset.

  \<open>model_calls\<close> counts the calls of \<^verbatim>\<open>client.generate\<close>, and \<open>tools_run\<close> lists the
  calls handed to \<^verbatim>\<open>tool_manager.run_tool\<close>: the trace of the two external calls
  the loop makes, which nothing reads.
\<close>

record FunctionCallAgent =
  tools :: "ToolParam list"
  max_turns :: int
  interrupted :: bool
  history :: MessageHistory
  message_queue :: "RealtimeEvent list"
  stop_signal :: "string option"
  model_calls :: nat
  tools_run :: "ToolCallParameters list"

text \<open>
  What the world outside the loop does during one turn. The model client and the tool
  executor are external (sections 1 and 6 of the specification): \<open>generate\<close> maps the
  messages sent to the content blocks returned, \<open>run_tool\<close> maps the call and the ledger
  to the result string and to the answer of a tool that signals the end of the task.
  \<^verbatim>\<open>cancel()\<close> is called by another task; it only sets the flag, so all that matters is
  between which two reads of the flag it lands: before the first checkpoint of the turn
  (line 215), while the model call is outstanding (before the second checkpoint,
  line 307), or while the tool runs (after it).
\<close>

record turn_env =
  cancel_before_model :: bool
  generate :: "turn list \<Rightarrow> block list"
  cancel_during_model :: bool
  run_tool :: "ToolCallParameters \<Rightarrow> turn list \<Rightarrow> string \<times> string option"
  cancel_during_tool :: bool

text \<open>
  The collaborators of a whole run: the truncation policy of the ledger, the constant
  \<^verbatim>\<open>COMPLETE_MESSAGE\<close> of \<^verbatim>\<open>ii_agent.utils.constants\<close> (not under src/, so a parameter),
  the path functions of the workspace manager and the image encoder used on attached
  files, and the environment of each turn, numbered from 0. All of them return: a
  collaborator that raises or never returns is outside this development.
\<close>

record world =
  truncation :: "turn list \<Rightarrow> turn list"
  COMPLETE_MESSAGE :: string
  relative_path :: "string \<Rightarrow> string"
  workspace_path :: "string \<Rightarrow> string"
  encode_image :: "string \<Rightarrow> string"
  env :: "nat \<Rightarrow> turn_env"

subsection \<open>Tool validation (lines 147-155)\<close>

text \<open>
  The loop over \<^verbatim>\<open>range(len(sorted_names) - 1)\<close> compares each name with its successor
  and raises at the first equal pair; on an empty list or a single name the range is
  empty.
\<close>

fun adjacent_duplicate :: "string list \<Rightarrow> string option" where
  "adjacent_duplicate (x # y # rest) =
     (if x = y then Some x else adjacent_duplicate (y # rest))"
| "adjacent_duplicate _ = None"

definition validate_tool_parameters :: "FunctionCallAgent \<Rightarrow> error + ToolParam list" where
  "validate_tool_parameters s =
     (let tool_params = tools s;
          tool_names = map name tool_params;
          sorted_names = sort tool_names
      in case adjacent_duplicate sorted_names of
           Some n \<Rightarrow> Inl (ToolDuplicated n)
         | None \<Rightarrow> Inr tool_params)"

subsection \<open>Small methods (lines 393-433)\<close>

definition put_nowait :: "RealtimeEvent \<Rightarrow> FunctionCallAgent \<Rightarrow> FunctionCallAgent" where
  "put_nowait ev s = s\<lparr>message_queue := message_queue s @ [ev]\<rparr>"

definition clear :: "FunctionCallAgent \<Rightarrow> FunctionCallAgent" where
  "clear s = s\<lparr>history := clear_history (history s), interrupted := False\<rparr>"

definition cancel :: "FunctionCallAgent \<Rightarrow> FunctionCallAgent" where
  "cancel s = s\<lparr>interrupted := True\<rparr>"

definition add_tool_call_result ::
  "ToolCallParameters \<Rightarrow> string \<Rightarrow> FunctionCallAgent \<Rightarrow> FunctionCallAgent" where
  "add_tool_call_result tool_call tool_result s =
     put_nowait
       \<lparr>event_type = TOOL_RESULT,
        content = [(''tool_call_id'', tool_call_id tool_call),
                   (''tool_name'', tool_name tool_call),
                   (''result'', tool_result)]\<rparr>
       (s\<lparr>history := history_add_tool_call_result tool_call tool_result (history s)\<rparr>)"

definition add_fake_assistant_turn :: "string \<Rightarrow> FunctionCallAgent \<Rightarrow> FunctionCallAgent" where
  "add_fake_assistant_turn text s =
     (let s1 = s\<lparr>history := add_assistant_turn [TextResult text] (history s)\<rparr>;
          rsp_type = (if interrupted s1 then AGENT_RESPONSE_INTERRUPTED else AGENT_RESPONSE)
      in put_nowait \<lparr>event_type = rsp_type, content = [(''text'', text)]\<rparr> s1)"

subsection \<open>The text of an agent-thinking event (lines 247-271)\<close>

text \<open>
  \<^verbatim>\<open>str.split()\<close> cuts at runs of whitespace and \<^verbatim>\<open>str.strip()\<close> removes it at both
  ends. A character here is a code point below 256; of these, \<^verbatim>\<open>str.isspace()\<close> holds
  for U+0009 to U+000D, U+001C to U+0020, U+0085 and U+00A0. The words of a reasoning
  block are joined eight to a line.
\<close>

definition whitespace :: "char \<Rightarrow> bool" where
  "whitespace c \<longleftrightarrow>
     c \<in> set [CHR 0x09, CHR 0x0A, CHR 0x0B, CHR 0x0C, CHR 0x0D,
               CHR 0x1C, CHR 0x1D, CHR 0x1E, CHR 0x1F, CHR 0x20,
               CHR 0x85, CHR 0xA0]"

fun split_words :: "string \<Rightarrow> string \<Rightarrow> string list" where
  "split_words [] word = (if word = [] then [] else [word])"
| "split_words (c # cs) word =
     (if whitespace c
      then (if word = [] then split_words cs [] else word # split_words cs [])
      else split_words cs (word @ [c]))"

definition split :: "string \<Rightarrow> string list" where
  "split s = split_words s []"

definition strip :: "string \<Rightarrow> string" where
  "strip s = rev (dropWhile whitespace (rev (dropWhile whitespace s)))"

fun join :: "string \<Rightarrow> string list \<Rightarrow> string" where
  "join sep [] = []"
| "join sep [w] = w"
| "join sep (w # ws) = w @ sep @ join sep ws"

fun wrapped_thinking :: "string list \<Rightarrow> string" where
  "wrapped_thinking [] = []"
| "wrapped_thinking (w # ws) =
     join '' '' (take 8 (w # ws)) @ [CHR 0x0A] @ wrapped_thinking (drop 7 ws)"

definition thinking_text :: "string \<Rightarrow> string" where
  "thinking_text thinking =
     ''```Thinking:'' @ [CHR 0x0A] @ strip (wrapped_thinking (split thinking)) @ [CHR 0x0A] @ ''```''"

fun thinking_events :: "block list \<Rightarrow> RealtimeEvent list" where
  "thinking_events [] = []"
| "thinking_events (TextResult text # bs) =
     \<lparr>event_type = AGENT_THINKING, content = [(''text'', text)]\<rparr> # thinking_events bs"
| "thinking_events (AnthropicThinkingBlock thinking # bs) =
     \<lparr>event_type = AGENT_THINKING, content = [(''text'', thinking_text thinking)]\<rparr>
       # thinking_events bs"
| "thinking_events (ToolCall c # bs) = thinking_events bs"

subsection \<open>One turn of the loop (lines 206-325)\<close>

text \<open>
  The body of the \<^verbatim>\<open>while\<close> loop, in the order of the source. It ends by a
  \<^verbatim>\<open>return\<close>, by a \<^verbatim>\<open>raise\<close>, or by reaching the end of the body.
\<close>

datatype step =
    Continue
  | Return ToolImplOutput
  | Raise error

text \<open>
  Lines 306-325: the second checkpoint, the execution of the tool and the stop signal.
  \<open>s\<close> is the object after the tool-call event has been put into the queue.
\<close>

definition execute_tool_call ::
  "turn_env \<Rightarrow> ToolCallParameters \<Rightarrow> FunctionCallAgent \<Rightarrow> step \<times> FunctionCallAgent" where
  "execute_tool_call e tool_call s =
     (if interrupted s then
        (Return \<lparr>tool_output = TOOL_RESULT_INTERRUPT_MESSAGE,
                 tool_result_message = TOOL_RESULT_INTERRUPT_MESSAGE\<rparr>,
         add_fake_assistant_turn TOOL_CALL_INTERRUPT_FAKE_MODEL_RSP
           (add_tool_call_result tool_call TOOL_RESULT_INTERRUPT_MESSAGE s))
      else
       (let outcome = run_tool e tool_call (turns (history s));
            tool_result = fst outcome;
            s1 = s\<lparr>tools_run := tools_run s @ [tool_call],
                   stop_signal :=
                     (case snd outcome of Some answer \<Rightarrow> Some answer | None \<Rightarrow> stop_signal s)\<rparr>;
            s2 = (if cancel_during_tool e then cancel s1 else s1);
            s3 = add_tool_call_result tool_call tool_result s2
        in
        case stop_signal s3 of
          Some final_answer \<Rightarrow>
            (Return \<lparr>tool_output = final_answer, tool_result_message = ''Task completed''\<rparr>,
             add_fake_assistant_turn final_answer s3)
        | None \<Rightarrow> (Continue, s3)))"

text \<open>
  Lines 238-304: the placeholder for an empty response, the assistant Turn, the
  agent-thinking events, and the three cases of the pending tool calls. \<open>s\<close> is the
  object when \<^verbatim>\<open>generate\<close> has returned \<open>generated\<close>.
\<close>

definition handle_model_response ::
  "world \<Rightarrow> turn_env \<Rightarrow> block list \<Rightarrow> FunctionCallAgent \<Rightarrow> step \<times> FunctionCallAgent" where
  "handle_model_response W e generated s =
     (let model_response =
            (if length generated = 0 then [TextResult (COMPLETE_MESSAGE W)] else generated);
          s1 = s\<lparr>history := add_assistant_turn model_response (history s)\<rparr>;
          pending_tool_calls = get_pending_tool_calls (history s1);
          s2 = s1\<lparr>message_queue := message_queue s1 @ thinking_events model_response\<rparr>
      in
      if length pending_tool_calls = 0 then
        (Return \<lparr>tool_output = [], tool_result_message = ''Task completed''\<rparr>,
         put_nowait
           \<lparr>event_type = AGENT_RESPONSE, content = [(''text'', ''Task completed'')]\<rparr> s2)
      else if length pending_tool_calls > 1 then
        (Raise OnlyOneToolCall, s2)
      else
       (let tool_call = pending_tool_calls ! 0;
            s3 = put_nowait
                   \<lparr>event_type = TOOL_CALL,
                    content = [(''tool_call_id'', tool_call_id tool_call),
                               (''tool_name'', tool_name tool_call),
                               (''tool_input'', tool_input tool_call)]\<rparr> s2
        in execute_tool_call e tool_call s3))"

text \<open>
  Lines 206-236: truncation, validation of the tools, the first checkpoint and the call
  of the model, during which \<^verbatim>\<open>cancel()\<close> may arrive.
\<close>

definition run_turn :: "world \<Rightarrow> turn_env \<Rightarrow> FunctionCallAgent \<Rightarrow> step \<times> FunctionCallAgent" where
  "run_turn W e s0 =
    (let s1 = s0\<lparr>history := history_truncate (truncation W) (history s0)\<rparr> in
     case validate_tool_parameters s1 of
       Inl err \<Rightarrow> (Raise err, s1)
     | Inr all_tool_params \<Rightarrow>
        (let s2 = (if cancel_before_model e then cancel s1 else s1) in
         if interrupted s2 then
           (Return \<lparr>tool_output = AGENT_INTERRUPT_MESSAGE,
                    tool_result_message = AGENT_INTERRUPT_MESSAGE\<rparr>,
            add_fake_assistant_turn AGENT_INTERRUPT_FAKE_MODEL_RSP s2)
         else
          (let generated = generate e (turns (history s2));
               s3 = s2\<lparr>model_calls := Suc (model_calls s2)\<rparr>;
               s4 = (if cancel_during_model e then cancel s3 else s3)
           in handle_model_response W e generated s4)))"

subsection \<open>The loop and its exit (lines 204-205, 327-333)\<close>

definition max_turns_exit :: "FunctionCallAgent \<Rightarrow> (error + ToolImplOutput) \<times> FunctionCallAgent" where
  "max_turns_exit s =
     (let agent_answer = ''Agent did not complete after max turns'' in
      (Inr \<lparr>tool_output = agent_answer, tool_result_message = agent_answer\<rparr>,
       put_nowait \<lparr>event_type = AGENT_RESPONSE, content = [(''text'', agent_answer)]\<rparr> s))"

function turn_loop ::
  "world \<Rightarrow> nat \<Rightarrow> int \<Rightarrow> FunctionCallAgent \<Rightarrow> (error + ToolImplOutput) \<times> FunctionCallAgent" where
  "turn_loop W i remaining_turns s =
     (if remaining_turns > 0 then
        (case run_turn W (env W i) s of
           (Continue, s') \<Rightarrow> turn_loop W (Suc i) (remaining_turns - 1) s'
         | (Return out, s') \<Rightarrow> (Inr out, s')
         | (Raise err, s') \<Rightarrow> (Inl err, s'))
      else max_turns_exit s)"
  by pat_completeness auto
termination
  by (relation "measure (\<lambda>(W, i, remaining_turns, s). nat remaining_turns)") auto

declare turn_loop.simps [simp del]

subsection \<open>\<^verbatim>\<open>run_impl\<close> (lines 161-333)\<close>

text \<open>
  Lines 166-202: the instruction is extended by the list of attached files and the images
  among them become image blocks (media type and encoded data), which gives the text and
  the attachments of the user prompt; the user prompt is appended and the flag is reset. \<^verbatim>\<open>file.split(".")[-1]\<close> is what follows the last dot,
  or the whole name when there is none. \<^verbatim>\<open>if files:\<close> fails for \<^verbatim>\<open>None\<close> and for the
  empty list.
\<close>

definition file_ext :: "string \<Rightarrow> string" where
  "file_ext file = rev (takeWhile (\<lambda>c. c \<noteq> CHR ''.'') (rev file))"

definition attached_files_text :: "world \<Rightarrow> string \<Rightarrow> string list \<Rightarrow> string" where
  "attached_files_text W instruction files =
     instruction @ [CHR 0x0A, CHR 0x0A] @ ''Attached files:'' @ [CHR 0x0A]
       @ concat (map (\<lambda>file. '' - '' @ relative_path W file @ [CHR 0x0A]) files)"

fun image_blocks_of :: "world \<Rightarrow> string list \<Rightarrow> image_block list" where
  "image_blocks_of W [] = []"
| "image_blocks_of W (file # files) =
     (let ext0 = file_ext file;
          ext = (if ext0 = ''jpg'' then ''jpeg'' else ext0)
      in if ext \<in> set [''png'', ''gif'', ''jpeg'', ''webp'']
         then (''image/'' @ ext, encode_image W (workspace_path W file)) # image_blocks_of W files
         else image_blocks_of W files)"

definition user_prompt_of ::
  "world \<Rightarrow> string \<Rightarrow> string list option \<Rightarrow> string \<times> image_block list" where
  "user_prompt_of W instruction files =
     (case files of
        None \<Rightarrow> (instruction, [])
      | Some [] \<Rightarrow> (instruction, [])
      | Some fs \<Rightarrow> (attached_files_text W instruction fs, image_blocks_of W fs))"

definition run_impl_prologue ::
  "world \<Rightarrow> string \<Rightarrow> string list option \<Rightarrow> FunctionCallAgent \<Rightarrow> FunctionCallAgent" where
  "run_impl_prologue W instruction files s =
     (let prompt = user_prompt_of W instruction files;
          s1 = s\<lparr>history := add_user_prompt (fst prompt) (snd prompt) (history s)\<rparr>
      in s1\<lparr>interrupted := False\<rparr>)"

definition run_impl ::
  "world \<Rightarrow> string \<Rightarrow> string list option \<Rightarrow> FunctionCallAgent
     \<Rightarrow> (error + ToolImplOutput) \<times> FunctionCallAgent" where
  "run_impl W instruction files s =
     (let s1 = run_impl_prologue W instruction files s;
          remaining_turns = max_turns s1
      in turn_loop W 0 remaining_turns s1)"

subsection \<open>Construction and the run entry point (lines 55-104, 338-368)\<close>

text \<open>
  \<^verbatim>\<open>__init__\<close> stores its arguments and clears the flag. Of \<^verbatim>\<open>run_agent_async\<close>,
  lines 357-360 act on the object before the run; \<^verbatim>\<open>orientation_instruction\<close> only adds
  a key to \<^verbatim>\<open>tool_input\<close> that \<^verbatim>\<open>run_impl\<close> does not read.

  Modelled from the spec: \<^verbatim>\<open>run_async\<close> is inherited from \<^verbatim>\<open>BaseAgent\<close>, which is not
  under src/; by section 6 of the specification the entry point hands back the result of
  the run, so \<^verbatim>\<open>run_async\<close> is the call of \<^verbatim>\<open>run_impl\<close>. The constructor of
  \<^verbatim>\<open>AgentToolManager\<close> keeps the tools it is given.
\<close>

definition init ::
  "ToolParam list \<Rightarrow> MessageHistory \<Rightarrow> RealtimeEvent list \<Rightarrow> int \<Rightarrow> FunctionCallAgent" where
  "init tools0 init_history queue max_turns0 =
     \<lparr>tools = tools0, max_turns = max_turns0, interrupted = False, history = init_history,
      message_queue = queue, stop_signal = None, model_calls = 0, tools_run = []\<rparr>"

definition run_agent_async_prologue :: "bool \<Rightarrow> FunctionCallAgent \<Rightarrow> FunctionCallAgent" where
  "run_agent_async_prologue resume s =
     (let s1 = s\<lparr>stop_signal := None\<rparr> in
      if \<not> resume then s1\<lparr>history := clear_history (history s1), interrupted := False\<rparr>
      else s1)"

definition run_agent_async ::
  "world \<Rightarrow> string \<Rightarrow> string list option \<Rightarrow> bool \<Rightarrow> FunctionCallAgent
     \<Rightarrow> (error + ToolImplOutput) \<times> FunctionCallAgent" where
  "run_agent_async W instruction files resume s =
     run_impl W instruction files (run_agent_async_prologue resume s)"

subsection \<open>The event consumer (lines 106-145)\<close>

text \<open>
  The fields of \<^verbatim>\<open>self\<close> that \<^verbatim>\<open>_process_messages\<close> uses, with the two effects it has:
  \<open>saved\<close> lists the calls of \<^verbatim>\<open>Events.save_event\<close> that returned, \<open>sent\<close> the messages
  that \<^verbatim>\<open>websocket.send_json\<close> delivered. The websocket is an opaque handle.

  One delivery is one message taken from the queue together with what the two calls do
  with it: saving raises or returns; sending returns, raises an \<^verbatim>\<open>Exception\<close>, or is
  cancelled (\<^verbatim>\<open>asyncio.CancelledError\<close>, which \<^verbatim>\<open>except Exception\<close> does not catch).
  The list of deliveries ends where the task is cancelled while it waits in
  \<^verbatim>\<open>message_queue.get()\<close>.
\<close>

datatype exn = CancelledError | Exception

datatype send_outcome = SendReturns | SendRaises | SendCancelled

record delivery =
  message :: RealtimeEvent
  save_raises :: bool
  send_result :: send_outcome

record message_processor =
  session_id :: "string option"
  websocket :: "nat option"
  saved :: "(string \<times> RealtimeEvent) list"
  sent :: "RealtimeEvent list"

text \<open>
  Lines 110-135, the body of the inner \<^verbatim>\<open>try\<close>: the exception that leaves it, if any,
  and the state. The handler of line 127 is inside.
\<close>

definition process_message :: "message_processor \<Rightarrow> delivery \<Rightarrow> exn option \<times> message_processor" where
  "process_message p d =
     (if session_id p \<noteq> None \<and> save_raises d then (Some Exception, p)
      else
       (let p1 = (case session_id p of
                    Some sid \<Rightarrow> p\<lparr>saved := saved p @ [(sid, message d)]\<rparr>
                  | None \<Rightarrow> p)
        in
        if event_type (message d) \<noteq> USER_MESSAGE \<and> websocket p1 \<noteq> None then
          (case send_result d of
             SendReturns \<Rightarrow> (None, p1\<lparr>sent := sent p1 @ [message d]\<rparr>)
           | SendRaises \<Rightarrow> (None, p1\<lparr>websocket := None\<rparr>)
           | SendCancelled \<Rightarrow> (Some CancelledError, p1))
        else (None, p1)))"

text \<open>
  The \<^verbatim>\<open>while True\<close> loop with the handlers of lines 136-141, and the method around
  it: \<^verbatim>\<open>CancelledError\<close> breaks the loop, any other exception is logged and the loop
  goes on. The first component is the exception that leaves the method.
\<close>

fun process_messages :: "message_processor \<Rightarrow> delivery list \<Rightarrow> exn option \<times> message_processor" where
  "process_messages p [] = (None, p)"
| "process_messages p (d # ds) =
     (case process_message p d of
        (None, p') \<Rightarrow> process_messages p' ds
      | (Some CancelledError, p') \<Rightarrow> (None, p')
      | (Some Exception, p') \<Rightarrow> process_messages p' ds)"

section \<open>Vocabulary of the properties\<close>

text \<open>
  Predicates on a sequence of appended Turns, in the order of appending.
  \<open>matched\<close>: every tool-result Turn comes directly after an assistant Turn that holds an
  invocation with the same call identifier, and no assistant Turn is followed by two
  results. \<open>answered_by_prior seen\<close>: the call identifier of every tool-result Turn is
  among \<open>seen\<close> or among the invocations of an assistant Turn earlier in the sequence.
  \<open>tool_results\<close> and \<open>tool_invocations\<close> count the tool-result Turns and the
  tool-invocation blocks.
\<close>

fun matched :: "turn list \<Rightarrow> bool" where
  "matched [] = True"
| "matched (AssistantTurn blocks # ToolResultTurn cid result # ts) =
     (cid \<in> set (map tool_call_id (tool_calls_of blocks)) \<and> matched ts)"
| "matched (ToolResultTurn cid result # ts) = False"
| "matched (t # ts) = matched ts"

fun answered_by_prior :: "string list \<Rightarrow> turn list \<Rightarrow> bool" where
  "answered_by_prior seen [] = True"
| "answered_by_prior seen (AssistantTurn blocks # ts) =
     answered_by_prior (seen @ map tool_call_id (tool_calls_of blocks)) ts"
| "answered_by_prior seen (ToolResultTurn cid result # ts) =
     (cid \<in> set seen \<and> answered_by_prior seen ts)"
| "answered_by_prior seen (UserTurn prompt image_blocks # ts) = answered_by_prior seen ts"

fun tool_results :: "turn list \<Rightarrow> nat" where
  "tool_results [] = 0"
| "tool_results (ToolResultTurn cid result # ts) = Suc (tool_results ts)"
| "tool_results (t # ts) = tool_results ts"

fun tool_invocations :: "turn list \<Rightarrow> nat" where
  "tool_invocations [] = 0"
| "tool_invocations (AssistantTurn blocks # ts) =
     length (tool_calls_of blocks) + tool_invocations ts"
| "tool_invocations (t # ts) = tool_invocations ts"

text \<open>The Turns appended between two states of the object.\<close>

definition appended_since :: "FunctionCallAgent \<Rightarrow> FunctionCallAgent \<Rightarrow> turn list" where
  "appended_since s s' = drop (length (appended (history s))) (appended (history s'))"


text \<open>
  The calls of \<^verbatim>\<open>Events.save_event\<close> that return when the deliveries \<open>ds\<close> are all saved
  under the session \<open>sid\<close>: none without a session, else one for each delivery whose
  saving does not raise.
\<close>

definition persisted_of :: "string option \<Rightarrow> delivery list \<Rightarrow> (string \<times> RealtimeEvent) list" where
  "persisted_of sid ds =
     (case sid of
        None \<Rightarrow> []
      | Some i \<Rightarrow> map (\<lambda>d. (i, message d)) (filter (\<lambda>d. \<not> save_raises d) ds))"

section \<open>Concrete collaborators\<close>

text \<open>
  Fixed inputs on which the definitions are evaluated: an empty ledger, two tool calls, a tool, an event, a delivery whose saving returns,
  a consumer with a session and a websocket,
  an environment that behaves the same in every turn (the model returns \<open>response\<close>, the
  tool returns \<open>tool_outcome\<close>, and \<^verbatim>\<open>cancel()\<close> arrives where the three flags say), and a world
  around it whose truncation keeps every Turn.
\<close>

definition empty_history :: MessageHistory where
  "empty_history = \<lparr>turns = [], appended = []\<rparr>"

definition call_a :: ToolCallParameters where
  "call_a = \<lparr>tool_call_id = ''call-a'', tool_name = ''bash'', tool_input = ''ls''\<rparr>"

definition call_b :: ToolCallParameters where
  "call_b = \<lparr>tool_call_id = ''call-b'', tool_name = ''bash'', tool_input = ''pwd''\<rparr>"

definition bash_tool :: ToolParam where
  "bash_tool = \<lparr>name = ''bash'', description = ''Run a command'', input_schema = ''{}''\<rparr>"

definition event :: "EventType \<Rightarrow> string \<Rightarrow> RealtimeEvent" where
  "event ty text = \<lparr>event_type = ty, content = [(''text'', text)]\<rparr>"

definition delivered :: "RealtimeEvent \<Rightarrow> send_outcome \<Rightarrow> delivery" where
  "delivered ev outcome = \<lparr>message = ev, save_raises = False, send_result = outcome\<rparr>"

definition connected :: message_processor where
  "connected = \<lparr>session_id = Some ''session'', websocket = Some 1, saved = [], sent = []\<rparr>"

definition scripted ::
  "bool \<Rightarrow> block list \<Rightarrow> bool \<Rightarrow> string \<times> string option \<Rightarrow> bool \<Rightarrow> turn_env" where
  "scripted cancel1 response cancel2 tool_outcome cancel3 =
     \<lparr>cancel_before_model = cancel1, generate = (\<lambda>messages. response),
      cancel_during_model = cancel2, run_tool = (\<lambda>call messages. tool_outcome),
      cancel_during_tool = cancel3\<rparr>"

definition constant_world :: "turn_env \<Rightarrow> world" where
  "constant_world e =
     \<lparr>truncation = (\<lambda>ts. ts), COMPLETE_MESSAGE = ''Completed the task.'',
      relative_path = (\<lambda>file. file), workspace_path = (\<lambda>file. file),
      encode_image = (\<lambda>path. path), env = (\<lambda>i. e)\<rparr>"

section \<open>Properties\<close>

subsection \<open>Basic facts about the ledger and the small methods\<close>

lemmas small_defs =
  put_nowait_def cancel_def add_tool_call_result_def add_fake_assistant_turn_def
  add_assistant_turn_def history_add_tool_call_result_def append_turn_def history_truncate_def

lemmas example_defs =
  empty_history_def call_a_def call_b_def bash_tool_def scripted_def constant_world_def init_def

lemma pending_after_assistant:
  "get_pending_tool_calls (add_assistant_turn bs h) = tool_calls_of bs"
  by (simp add: get_pending_tool_calls_def add_assistant_turn_def append_turn_def)

lemma validate_history [simp]:
  "validate_tool_parameters (s\<lparr>history := h\<rparr>) = validate_tool_parameters s"
  by (simp add: validate_tool_parameters_def)

lemma validate_no_tools: "tools s = [] \<Longrightarrow> validate_tool_parameters s = Inr []"
  by (simp add: validate_tool_parameters_def)

subsection \<open>A rule for the loop\<close>

text \<open>
  An invariant \<open>I\<close> of the turn number, the remaining budget and the object, kept by every
  turn that reaches the end of the body, gives \<open>Q\<close> for the result of the loop when every
  exit of the loop establishes \<open>Q\<close>.
\<close>

lemma turn_loop_rule:
  assumes "I i n s"
      and "\<And>i n s s'. I i n s \<Longrightarrow> 0 < n \<Longrightarrow> run_turn W (env W i) s = (Continue, s')
             \<Longrightarrow> I (Suc i) (n - 1) s'"
      and "\<And>i n s out s'. I i n s \<Longrightarrow> 0 < n \<Longrightarrow> run_turn W (env W i) s = (Return out, s')
             \<Longrightarrow> Q (Inr out, s')"
      and "\<And>i n s err s'. I i n s \<Longrightarrow> 0 < n \<Longrightarrow> run_turn W (env W i) s = (Raise err, s')
             \<Longrightarrow> Q (Inl err, s')"
      and "\<And>i n s. I i n s \<Longrightarrow> n \<le> 0 \<Longrightarrow> Q (max_turns_exit s)"
  shows "Q (turn_loop W i n s)"
  using assms(1)
proof (induction "nat n" arbitrary: i n s)
  case 0
  then have "n \<le> 0" by simp
  then show ?case using assms(5)[OF 0(2)] by (subst turn_loop.simps) simp
next
  case (Suc k)
  then have pos: "0 < n" and k: "k = nat (n - 1)" by auto
  obtain x s' where rt: "run_turn W (env W i) s = (x, s')" by (cases "run_turn W (env W i) s")
  show ?case
  proof (cases x)
    case Continue
    from rt Continue have c: "run_turn W (env W i) s = (Continue, s')" by simp
    from assms(2)[OF Suc(3) pos c] have "I (Suc i) (n - 1) s'" .
    from Suc(1)[OF k this] show ?thesis using pos c by (subst turn_loop.simps) simp
  next
    case (Return out)
    with rt have c: "run_turn W (env W i) s = (Return out, s')" by simp
    from assms(3)[OF Suc(3) pos c] show ?thesis using pos c by (subst turn_loop.simps) simp
  next
    case (Raise err)
    with rt have c: "run_turn W (env W i) s = (Raise err, s')" by simp
    from assms(4)[OF Suc(3) pos c] show ?thesis using pos c by (subst turn_loop.simps) simp
  qed
qed

subsection \<open>Sequences of appended Turns\<close>

lemma matched_assistant_first: "matched ys \<Longrightarrow> matched (AssistantTurn blocks # ys)"
  by (cases ys rule: matched.cases) auto

lemma matched_append: "matched xs \<Longrightarrow> matched ys \<Longrightarrow> matched (xs @ ys)"
  by (induction xs rule: matched.induct) (auto simp: matched_assistant_first)

lemma matched_counts: "matched ts \<Longrightarrow> tool_results ts \<le> tool_invocations ts"
proof (induction ts rule: matched.induct)
  case (2 blocks cid result ts)
  then have "tool_calls_of blocks \<noteq> []" by auto
  then have "1 \<le> length (tool_calls_of blocks)" by (cases "tool_calls_of blocks") auto
  with 2 show ?case by auto
qed auto

lemma matched_prior: "matched ts \<Longrightarrow> answered_by_prior seen ts"
proof (induction ts arbitrary: seen rule: matched.induct)
  case (2 blocks cid result ts)
  from 2(1)[of "seen @ map tool_call_id (tool_calls_of blocks)"] 2(2)
  show ?case by auto
qed (auto simp del: append_assoc simp add: append_assoc[symmetric])

subsection \<open>More than one pending tool call\<close>

lemma handle_many_calls:
  assumes "1 < length (tool_calls_of generated)"
  shows "handle_model_response W e generated s =
           (Raise OnlyOneToolCall,
            s\<lparr>history := add_assistant_turn generated (history s),
              message_queue := message_queue s @ thinking_events generated\<rparr>)"
proof -
  from assms have "generated \<noteq> []" and "tool_calls_of generated \<noteq> []" by auto
  with assms show ?thesis
    by (simp add: handle_model_response_def Let_def pending_after_assistant)
qed

lemma run_turn_many_calls:
  assumes "validate_tool_parameters s = Inr params"
      and "\<not> interrupted s" and "\<not> cancel_before_model e"
      and "generate e (truncation W (turns (history s))) = model_response"
      and "1 < length (tool_calls_of model_response)"
  shows "fst (run_turn W e s) = Raise OnlyOneToolCall"
    and "turns (history (snd (run_turn W e s))) =
           truncation W (turns (history s)) @ [AssistantTurn model_response]"
    and "appended (history (snd (run_turn W e s))) =
           appended (history s) @ [AssistantTurn model_response]"
    and "tools_run (snd (run_turn W e s)) = tools_run s"
  using assms
  by (simp_all add: run_turn_def Let_def handle_many_calls small_defs)

text \<open>
  C1. A turn starts with the tools valid and the flag clear, and the model answers with
  more than one tool invocation. Then the loop raises the error "Only one tool call per
  turn is supported". At that moment the assistant Turn is the last Turn of the ledger
  and the only Turn appended in this turn: no tool-result Turn was appended, and no tool
  was run.
\<close>

theorem multiple_tool_calls_rejected:
  assumes "0 < remaining_turns"
      and "validate_tool_parameters s = Inr params"
      and "\<not> interrupted s" and "\<not> cancel_before_model (env W i)"
      and "generate (env W i) (truncation W (turns (history s))) = model_response"
      and "1 < length (tool_calls_of model_response)"
  shows "fst (turn_loop W i remaining_turns s) = Inl OnlyOneToolCall
       \<and> turns (history (snd (turn_loop W i remaining_turns s))) =
           truncation W (turns (history s)) @ [AssistantTurn model_response]
       \<and> appended (history (snd (turn_loop W i remaining_turns s))) =
           appended (history s) @ [AssistantTurn model_response]
       \<and> tools_run (snd (turn_loop W i remaining_turns s)) = tools_run s"
proof -
  obtain s' where rt: "run_turn W (env W i) s = (Raise OnlyOneToolCall, s')"
    using run_turn_many_calls(1)[OF assms(2-6)] by (cases "run_turn W (env W i) s") auto
  have tl: "turn_loop W i remaining_turns s = (Inl OnlyOneToolCall, s')"
    using assms(1) rt by (subst turn_loop.simps) simp
  show ?thesis
    using run_turn_many_calls(2-4)[OF assms(2-6)] rt tl by simp
qed

theorem multiple_tool_calls_rejected_witness:
  "fst (turn_loop (constant_world (scripted False [ToolCall call_a, ToolCall call_b] False ([], None) False))
          0 3 (init [] empty_history [] 3)) = Inl OnlyOneToolCall
   \<and> appended (history (snd (turn_loop
          (constant_world (scripted False [ToolCall call_a, ToolCall call_b] False ([], None) False))
          0 3 (init [] empty_history [] 3)))) = [AssistantTurn [ToolCall call_a, ToolCall call_b]]
   \<and> tools_run (snd (turn_loop
          (constant_world (scripted False [ToolCall call_a, ToolCall call_b] False ([], None) False))
          0 3 (init [] empty_history [] 3))) = []"
  using multiple_tool_calls_rejected
          [of 3 "init [] empty_history [] 3" "[]"
              "constant_world (scripted False [ToolCall call_a, ToolCall call_b] False ([], None) False)"
              0 "[ToolCall call_a, ToolCall call_b]"]
  by (simp add: example_defs validate_no_tools)

subsection \<open>What one turn appends to the ledger\<close>

lemma execute_appended:
  "\<exists>r tail. appended (history (snd (execute_tool_call e c s))) =
               appended (history s) @ ToolResultTurn (tool_call_id c) r # tail
           \<and> (tail = [] \<or> (\<exists>t. tail = [AssistantTurn [TextResult t]]))"
  by (auto simp: execute_tool_call_def Let_def small_defs split: option.splits)

lemma execute_model_calls: "model_calls (snd (execute_tool_call e c s)) = model_calls s"
  by (simp add: execute_tool_call_def Let_def small_defs split: option.splits)

lemma execute_tools: "tools (snd (execute_tool_call e c s)) = tools s"
  by (simp add: execute_tool_call_def Let_def small_defs split: option.splits)

lemma handle_unfold:
  assumes "resp = (if length g = 0 then [TextResult (COMPLETE_MESSAGE W)] else g)"
      and "s2 = s\<lparr>history := add_assistant_turn resp (history s),
                    message_queue := message_queue s @ thinking_events resp\<rparr>"
  shows "handle_model_response W e g s =
          (case tool_calls_of resp of
             [] \<Rightarrow> (Return \<lparr>tool_output = [], tool_result_message = ''Task completed''\<rparr>,
                    put_nowait \<lparr>event_type = AGENT_RESPONSE,
                                content = [(''text'', ''Task completed'')]\<rparr> s2)
           | [c] \<Rightarrow> execute_tool_call e c
                     (put_nowait \<lparr>event_type = TOOL_CALL,
                                  content = [(''tool_call_id'', tool_call_id c),
                                             (''tool_name'', tool_name c),
                                             (''tool_input'', tool_input c)]\<rparr> s2)
           | c # d # cs \<Rightarrow> (Raise OnlyOneToolCall, s2))"
  unfolding handle_model_response_def Let_def assms
  by (simp add: pending_after_assistant split: list.splits)

lemma handle_appended:
  "\<exists>seg. appended (history (snd (handle_model_response W e g s))) = appended (history s) @ seg
         \<and> matched seg \<and> AssistantTurn [] \<notin> set seg"
proof -
  define resp where "resp = (if length g = 0 then [TextResult (COMPLETE_MESSAGE W)] else g)"
  have ne: "resp \<noteq> []" by (auto simp: resp_def)
  define s2 where "s2 = s\<lparr>history := add_assistant_turn resp (history s),
       message_queue := message_queue s @ thinking_events resp\<rparr>"
  have app2: "appended (history s2) = appended (history s) @ [AssistantTurn resp]"
    by (simp add: s2_def small_defs)
  note eq = handle_unfold[OF resp_def s2_def, of e]
  show ?thesis
  proof (cases "tool_calls_of resp")
    case Nil
    then have "appended (history (snd (handle_model_response W e g s))) =
                 appended (history s) @ [AssistantTurn resp]"
      using app2 by (simp add: eq put_nowait_def)
    with ne show ?thesis by auto
  next
    case (Cons c cs)
    show ?thesis
    proof (cases cs)
      case (Cons d ds)
      then have "appended (history (snd (handle_model_response W e g s))) =
                 appended (history s) @ [AssistantTurn resp]"
        using app2 \<open>tool_calls_of resp = c # cs\<close> by (simp add: eq)
      with ne show ?thesis by auto
    next
      case Nil
      define s3 where "s3 = put_nowait
                   \<lparr>event_type = TOOL_CALL,
                    content = [(''tool_call_id'', tool_call_id c),
                               (''tool_name'', tool_name c),
                               (''tool_input'', tool_input c)]\<rparr> s2"
      have app3: "appended (history s3) = appended (history s) @ [AssistantTurn resp]"
        by (simp add: s3_def app2 put_nowait_def)
      have one: "tool_calls_of resp = [c]" using Nil \<open>tool_calls_of resp = c # cs\<close> by simp
      have eq': "handle_model_response W e g s = execute_tool_call e c s3"
        using one by (simp add: eq s3_def)
      from execute_appended[of e c s3] obtain r tail where
        t: "appended (history (snd (execute_tool_call e c s3))) =
              appended (history s3) @ ToolResultTurn (tool_call_id c) r # tail"
        and tl: "tail = [] \<or> (\<exists>t. tail = [AssistantTurn [TextResult t]])" by blast
      have "appended (history (snd (handle_model_response W e g s))) =
              appended (history s) @ (AssistantTurn resp # ToolResultTurn (tool_call_id c) r # tail)"
        using t eq' app3 by simp
      moreover have "matched (AssistantTurn resp # ToolResultTurn (tool_call_id c) r # tail)"
        using tl one by auto
      moreover have "AssistantTurn [] \<notin> set (AssistantTurn resp # ToolResultTurn (tool_call_id c) r # tail)"
        using tl ne by auto
      ultimately show ?thesis by blast
    qed
  qed
qed

lemma handle_model_calls: "model_calls (snd (handle_model_response W e g s)) = model_calls s"
  by (simp add: handle_model_response_def Let_def execute_model_calls put_nowait_def)

lemma handle_tools: "tools (snd (handle_model_response W e g s)) = tools s"
  by (simp add: handle_model_response_def Let_def execute_tools put_nowait_def)

lemma run_turn_appended:
  "\<exists>seg. appended (history (snd (run_turn W e s))) = appended (history s) @ seg
         \<and> matched seg \<and> AssistantTurn [] \<notin> set seg"
proof (cases "validate_tool_parameters s")
  case (Inl err)
  then show ?thesis by (simp add: run_turn_def Let_def small_defs)
next
  case (Inr ps)
  show ?thesis
  proof (cases "interrupted s \<or> cancel_before_model e")
    case True
    then have "appended (history (snd (run_turn W e s))) =
                 appended (history s) @ [AssistantTurn [TextResult AGENT_INTERRUPT_FAKE_MODEL_RSP]]"
      using Inr by (auto simp add: run_turn_def Let_def small_defs)
    then show ?thesis by auto
  next
    case False
    define s4 where "s4 = (let s3 = s\<lparr>history := history_truncate (truncation W) (history s),
                             model_calls := Suc (model_calls s)\<rparr>
                           in if cancel_during_model e then cancel s3 else s3)"
    have "run_turn W e s =
            handle_model_response W e (generate e (truncation W (turns (history s)))) s4"
      using Inr False by (simp add: run_turn_def Let_def small_defs s4_def)
    moreover have "appended (history s4) = appended (history s)"
      by (simp add: s4_def Let_def small_defs)
    ultimately show ?thesis using handle_appended[of W e _ s4] by simp
  qed
qed

lemma run_turn_model_calls: "model_calls (snd (run_turn W e s)) \<le> Suc (model_calls s)"
  by (simp add: run_turn_def Let_def handle_model_calls small_defs split: sum.splits)

lemma run_turn_tools: "tools (snd (run_turn W e s)) = tools s"
  by (simp add: run_turn_def Let_def handle_tools small_defs split: sum.splits)

lemma max_turns_exit_frame:
  "history (snd (max_turns_exit s)) = history s"
  "model_calls (snd (max_turns_exit s)) = model_calls s"
  "tools (snd (max_turns_exit s)) = tools s"
  by (simp_all add: max_turns_exit_def Let_def put_nowait_def)

lemma turn_loop_appended:
  "\<exists>new. appended (history (snd (turn_loop W i n s))) = appended (history s) @ new
         \<and> matched new \<and> AssistantTurn [] \<notin> set new"
proof -
  let ?ext = "\<lambda>t::FunctionCallAgent. \<exists>new. appended (history t) = appended (history s) @ new
                 \<and> matched new \<and> AssistantTurn [] \<notin> set new"
  have step: "?ext t'" if "?ext t" and "run_turn W e t = (x, t')" for t t' e x
  proof -
    from that(1) obtain new where n: "appended (history t) = appended (history s) @ new"
      "matched new" "AssistantTurn [] \<notin> set new" by blast
    from run_turn_appended[of W e t] that(2) obtain seg where
      sg: "appended (history t') = appended (history t) @ seg"
      "matched seg" "AssistantTurn [] \<notin> set seg" by auto
    have "appended (history t') = appended (history s) @ (new @ seg)
        \<and> matched (new @ seg) \<and> AssistantTurn [] \<notin> set (new @ seg)"
      using n sg by (simp add: matched_append)
    then show ?thesis by blast
  qed
  have "?ext (snd (turn_loop W i n s))"
  proof (rule turn_loop_rule[where I = "\<lambda>i n t. ?ext t" and Q = "\<lambda>r. ?ext (snd r)"])
    show "?ext s" by simp
  qed (use step in \<open>simp_all add: max_turns_exit_frame\<close>)
  then show ?thesis .
qed

subsection \<open>Tool results and assistant Turns over a whole run\<close>

lemma run_agent_async_appended:
  "\<exists>prompt image_blocks new.
     appended (history (snd (run_agent_async W instruction files resume s))) =
       appended (history s) @ UserTurn prompt image_blocks # new
     \<and> matched new \<and> AssistantTurn [] \<notin> set new"
proof -
  define s1 where "s1 = run_impl_prologue W instruction files (run_agent_async_prologue resume s)"
  have "\<exists>prompt image_blocks. appended (history s1) = appended (history s) @ [UserTurn prompt image_blocks]"
    by (simp add: s1_def run_impl_prologue_def run_agent_async_prologue_def Let_def
          add_user_prompt_def append_turn_def clear_history_def)
  then obtain prompt image_blocks where
    a: "appended (history s1) = appended (history s) @ [UserTurn prompt image_blocks]" by blast
  have r: "run_agent_async W instruction files resume s = turn_loop W 0 (max_turns s1) s1"
    by (simp add: run_agent_async_def run_impl_def Let_def s1_def)
  from turn_loop_appended[of W 0 "max_turns s1" s1] obtain new where
    "appended (history (snd (turn_loop W 0 (max_turns s1) s1))) = appended (history s1) @ new"
    "matched new" "AssistantTurn [] \<notin> set new" by blast
  with a r show ?thesis by auto
qed

text \<open>
  C8. In every run, the Turns appended since the entry point was called are matched: each
  tool-result Turn directly follows an assistant Turn that holds an invocation with the
  same call identifier, and no assistant Turn is followed by two results. So the call
  identifier of every tool-result Turn is that of an invocation in an assistant Turn
  appended before it, and there are at most as many tool-result Turns as tool-invocation
  blocks.
\<close>

theorem tool_results_follow_invocations:
  "appended (history (snd (run_agent_async W instruction files resume s))) =
     appended (history s) @ appended_since s (snd (run_agent_async W instruction files resume s))
   \<and> matched (appended_since s (snd (run_agent_async W instruction files resume s)))
   \<and> answered_by_prior [] (appended_since s (snd (run_agent_async W instruction files resume s)))
   \<and> tool_results (appended_since s (snd (run_agent_async W instruction files resume s)))
       \<le> tool_invocations (appended_since s (snd (run_agent_async W instruction files resume s)))"
proof -
  from run_agent_async_appended[of W instruction files resume s]
  obtain prompt image_blocks new where
    a: "appended (history (snd (run_agent_async W instruction files resume s))) =
          appended (history s) @ UserTurn prompt image_blocks # new"
    and m: "matched new" by blast
  have since: "appended_since s (snd (run_agent_async W instruction files resume s)) =
                 UserTurn prompt image_blocks # new"
    by (simp add: appended_since_def a)
  have m': "matched (UserTurn prompt image_blocks # new)" using m by simp
  show ?thesis
    using a m' matched_prior[OF m', of "[]"] matched_counts[OF m'] by (simp add: since)
qed

theorem tool_results_follow_invocations_witness:
  "appended_since (init [] empty_history [] 3)
     (snd (run_agent_async
        (constant_world (scripted False [ToolCall call_a] False (''ok'', Some ''done'') False))
        ''hi'' None False (init [] empty_history [] 3))) =
     [UserTurn ''hi'' [], AssistantTurn [ToolCall call_a], ToolResultTurn ''call-a'' ''ok'',
      AssistantTurn [TextResult ''done'']]
   \<and> matched (appended_since (init [] empty_history [] 3)
     (snd (run_agent_async
        (constant_world (scripted False [ToolCall call_a] False (''ok'', Some ''done'') False))
        ''hi'' None False (init [] empty_history [] 3))))"
proof -
  have "appended_since (init [] empty_history [] 3)
     (snd (run_agent_async
        (constant_world (scripted False [ToolCall call_a] False (''ok'', Some ''done'') False))
        ''hi'' None False (init [] empty_history [] 3))) =
     [UserTurn ''hi'' [], AssistantTurn [ToolCall call_a], ToolResultTurn ''call-a'' ''ok'',
      AssistantTurn [TextResult ''done'']]"
    by code_simp
  then show ?thesis
    using tool_results_follow_invocations
      [of "constant_world (scripted False [ToolCall call_a] False (''ok'', Some ''done'') False)"
          "''hi''" None False "init [] empty_history [] 3"]
    by simp
qed

lemma run_turn_empty_response:
  assumes "validate_tool_parameters s = Inr params"
      and "\<not> interrupted s" and "\<not> cancel_before_model e"
      and "generate e (truncation W (turns (history s))) = []"
  shows "fst (run_turn W e s) = Return \<lparr>tool_output = [], tool_result_message = ''Task completed''\<rparr>"
    and "turns (history (snd (run_turn W e s))) =
           truncation W (turns (history s)) @ [AssistantTurn [TextResult (COMPLETE_MESSAGE W)]]"
    and "appended (history (snd (run_turn W e s))) =
           appended (history s) @ [AssistantTurn [TextResult (COMPLETE_MESSAGE W)]]"
    and "message_queue (snd (run_turn W e s)) =
           message_queue s @
           [\<lparr>event_type = AGENT_THINKING, content = [(''text'', COMPLETE_MESSAGE W)]\<rparr>,
            \<lparr>event_type = AGENT_RESPONSE, content = [(''text'', ''Task completed'')]\<rparr>]"
    and "tools_run (snd (run_turn W e s)) = tools_run s"
  using assms
  by (simp_all add: run_turn_def Let_def handle_unfold[OF refl refl] small_defs)


text \<open>
  C6. A turn starts with the tools valid and the flag clear, and the model returns no
  content block. Then the assistant Turn appended holds the single text block
  \<^verbatim>\<open>COMPLETE_MESSAGE\<close>, that text is emitted as an agent-thinking event, no tool call is
  pending and no tool is run, the agent-response event "Task completed" is emitted and
  the run returns with that message. And in every run, no assistant Turn appended
  since the entry point was called is without blocks.
\<close>

theorem empty_response_completes:
  "AssistantTurn [] \<notin> set (appended_since s0 (snd (run_agent_async W instruction files resume s0)))
   \<and> (0 < remaining_turns \<and> validate_tool_parameters s = Inr params
        \<and> \<not> interrupted s \<and> \<not> cancel_before_model (env W i)
        \<and> generate (env W i) (truncation W (turns (history s))) = []
      \<longrightarrow> fst (turn_loop W i remaining_turns s) =
            Inr \<lparr>tool_output = [], tool_result_message = ''Task completed''\<rparr>
        \<and> turns (history (snd (turn_loop W i remaining_turns s))) =
            truncation W (turns (history s)) @ [AssistantTurn [TextResult (COMPLETE_MESSAGE W)]]
        \<and> appended (history (snd (turn_loop W i remaining_turns s))) =
            appended (history s) @ [AssistantTurn [TextResult (COMPLETE_MESSAGE W)]]
        \<and> message_queue (snd (turn_loop W i remaining_turns s)) =
            message_queue s @
            [\<lparr>event_type = AGENT_THINKING, content = [(''text'', COMPLETE_MESSAGE W)]\<rparr>,
             \<lparr>event_type = AGENT_RESPONSE, content = [(''text'', ''Task completed'')]\<rparr>]
        \<and> tools_run (snd (turn_loop W i remaining_turns s)) = tools_run s)"
proof (intro conjI impI)
  from run_agent_async_appended[of W instruction files resume s0]
  show "AssistantTurn [] \<notin> set (appended_since s0 (snd (run_agent_async W instruction files resume s0)))"
    by (auto simp: appended_since_def)
next
  assume h: "0 < remaining_turns \<and> validate_tool_parameters s = Inr params
        \<and> \<not> interrupted s \<and> \<not> cancel_before_model (env W i)
        \<and> generate (env W i) (truncation W (turns (history s))) = []"
  then have v: "validate_tool_parameters s = Inr params" and ni: "\<not> interrupted s"
    and nc: "\<not> cancel_before_model (env W i)"
    and g: "generate (env W i) (truncation W (turns (history s))) = []"
    and pos: "0 < remaining_turns" by simp_all
  note rt = run_turn_empty_response[OF v ni nc g]
  obtain s' where r: "run_turn W (env W i) s =
      (Return \<lparr>tool_output = [], tool_result_message = ''Task completed''\<rparr>, s')"
    using rt(1) by (cases "run_turn W (env W i) s") auto
  have tl: "turn_loop W i remaining_turns s =
      (Inr \<lparr>tool_output = [], tool_result_message = ''Task completed''\<rparr>, s')"
    using pos r by (subst turn_loop.simps) simp
  show "fst (turn_loop W i remaining_turns s) =
            Inr \<lparr>tool_output = [], tool_result_message = ''Task completed''\<rparr>"
    using tl by simp
  show "turns (history (snd (turn_loop W i remaining_turns s))) =
            truncation W (turns (history s)) @ [AssistantTurn [TextResult (COMPLETE_MESSAGE W)]]"
    using tl rt(2) r by simp
  show "appended (history (snd (turn_loop W i remaining_turns s))) =
            appended (history s) @ [AssistantTurn [TextResult (COMPLETE_MESSAGE W)]]"
    using tl rt(3) r by simp
  show "message_queue (snd (turn_loop W i remaining_turns s)) =
            message_queue s @
            [\<lparr>event_type = AGENT_THINKING, content = [(''text'', COMPLETE_MESSAGE W)]\<rparr>,
             \<lparr>event_type = AGENT_RESPONSE, content = [(''text'', ''Task completed'')]\<rparr>]"
    using tl rt(4) r by simp
  show "tools_run (snd (turn_loop W i remaining_turns s)) = tools_run s"
    using tl rt(5) r by simp
qed

theorem empty_response_completes_witness:
  "fst (turn_loop (constant_world (scripted False [] False ([], None) False)) 0 3
          (init [] empty_history [] 3)) =
     Inr \<lparr>tool_output = [], tool_result_message = ''Task completed''\<rparr>
   \<and> appended (history (snd (turn_loop (constant_world (scripted False [] False ([], None) False)) 0 3
          (init [] empty_history [] 3)))) = [AssistantTurn [TextResult ''Completed the task.'']]
   \<and> message_queue (snd (turn_loop (constant_world (scripted False [] False ([], None) False)) 0 3
          (init [] empty_history [] 3))) =
        [\<lparr>event_type = AGENT_THINKING, content = [(''text'', ''Completed the task.'')]\<rparr>,
         \<lparr>event_type = AGENT_RESPONSE, content = [(''text'', ''Task completed'')]\<rparr>]"
  using empty_response_completes
          [of "init [] empty_history [] 3" "constant_world (scripted False [] False ([], None) False)"
              "''hi''" None False 3 "init [] empty_history [] 3" "[]" 0]
  by (simp add: example_defs validate_no_tools)

subsection \<open>Interruption at the second checkpoint\<close>

lemma run_turn_second_checkpoint:
  assumes "validate_tool_parameters s = Inr params"
      and "\<not> interrupted s" and "\<not> cancel_before_model e" and "cancel_during_model e"
      and "generate e (truncation W (turns (history s))) = model_response"
      and "tool_calls_of model_response = [tool_call]"
  shows "fst (run_turn W e s) =
           Return \<lparr>tool_output = TOOL_RESULT_INTERRUPT_MESSAGE,
                   tool_result_message = TOOL_RESULT_INTERRUPT_MESSAGE\<rparr>"
    and "turns (history (snd (run_turn W e s))) =
           truncation W (turns (history s)) @
           [AssistantTurn model_response,
            ToolResultTurn (tool_call_id tool_call) TOOL_RESULT_INTERRUPT_MESSAGE,
            AssistantTurn [TextResult TOOL_CALL_INTERRUPT_FAKE_MODEL_RSP]]"
    and "appended (history (snd (run_turn W e s))) =
           appended (history s) @
           [AssistantTurn model_response,
            ToolResultTurn (tool_call_id tool_call) TOOL_RESULT_INTERRUPT_MESSAGE,
            AssistantTurn [TextResult TOOL_CALL_INTERRUPT_FAKE_MODEL_RSP]]"
    and "message_queue (snd (run_turn W e s)) =
           message_queue s @ thinking_events model_response @
           [\<lparr>event_type = TOOL_CALL,
             content = [(''tool_call_id'', tool_call_id tool_call),
                        (''tool_name'', tool_name tool_call),
                        (''tool_input'', tool_input tool_call)]\<rparr>,
            \<lparr>event_type = TOOL_RESULT,
             content = [(''tool_call_id'', tool_call_id tool_call),
                        (''tool_name'', tool_name tool_call),
                        (''result'', TOOL_RESULT_INTERRUPT_MESSAGE)]\<rparr>,
            \<lparr>event_type = AGENT_RESPONSE_INTERRUPTED,
             content = [(''text'', TOOL_CALL_INTERRUPT_FAKE_MODEL_RSP)]\<rparr>]"
    and "tools_run (snd (run_turn W e s)) = tools_run s"
    and "interrupted (snd (run_turn W e s))"
proof -
  from assms(6) have ne: "model_response \<noteq> []" by auto
  show "fst (run_turn W e s) =
           Return \<lparr>tool_output = TOOL_RESULT_INTERRUPT_MESSAGE,
                   tool_result_message = TOOL_RESULT_INTERRUPT_MESSAGE\<rparr>"
    and "turns (history (snd (run_turn W e s))) =
           truncation W (turns (history s)) @
           [AssistantTurn model_response,
            ToolResultTurn (tool_call_id tool_call) TOOL_RESULT_INTERRUPT_MESSAGE,
            AssistantTurn [TextResult TOOL_CALL_INTERRUPT_FAKE_MODEL_RSP]]"
    and "appended (history (snd (run_turn W e s))) =
           appended (history s) @
           [AssistantTurn model_response,
            ToolResultTurn (tool_call_id tool_call) TOOL_RESULT_INTERRUPT_MESSAGE,
            AssistantTurn [TextResult TOOL_CALL_INTERRUPT_FAKE_MODEL_RSP]]"
    and "message_queue (snd (run_turn W e s)) =
           message_queue s @ thinking_events model_response @
           [\<lparr>event_type = TOOL_CALL,
             content = [(''tool_call_id'', tool_call_id tool_call),
                        (''tool_name'', tool_name tool_call),
                        (''tool_input'', tool_input tool_call)]\<rparr>,
            \<lparr>event_type = TOOL_RESULT,
             content = [(''tool_call_id'', tool_call_id tool_call),
                        (''tool_name'', tool_name tool_call),
                        (''result'', TOOL_RESULT_INTERRUPT_MESSAGE)]\<rparr>,
            \<lparr>event_type = AGENT_RESPONSE_INTERRUPTED,
             content = [(''text'', TOOL_CALL_INTERRUPT_FAKE_MODEL_RSP)]\<rparr>]"
    and "tools_run (snd (run_turn W e s)) = tools_run s"
    and "interrupted (snd (run_turn W e s))"
    using assms ne
    by (simp_all add: run_turn_def Let_def handle_unfold[OF refl refl] execute_tool_call_def
          small_defs)
qed

text \<open>
  C3. A turn passes the first checkpoint, \<^verbatim>\<open>cancel()\<close> arrives while the model call
  is outstanding, and the response holds exactly one tool invocation. Then, after the
  assistant Turn of the response, the loop appends a tool-result Turn for that call with
  the text "Tool execution interrupted by user." and an assistant Turn with the fixed
  resumption text; it emits the tool-call event, a tool-result event and an
  agent-response-interrupted event; it returns "Tool execution interrupted by user.";
  and no tool is run.
\<close>

theorem interrupted_before_tool_execution:
  assumes "0 < remaining_turns"
      and "validate_tool_parameters s = Inr params"
      and "\<not> interrupted s" and "\<not> cancel_before_model (env W i)"
      and "cancel_during_model (env W i)"
      and "generate (env W i) (truncation W (turns (history s))) = model_response"
      and "tool_calls_of model_response = [tool_call]"
  shows "fst (turn_loop W i remaining_turns s) =
           Inr \<lparr>tool_output = TOOL_RESULT_INTERRUPT_MESSAGE,
                tool_result_message = TOOL_RESULT_INTERRUPT_MESSAGE\<rparr>
       \<and> turns (history (snd (turn_loop W i remaining_turns s))) =
           truncation W (turns (history s)) @
           [AssistantTurn model_response,
            ToolResultTurn (tool_call_id tool_call) TOOL_RESULT_INTERRUPT_MESSAGE,
            AssistantTurn [TextResult TOOL_CALL_INTERRUPT_FAKE_MODEL_RSP]]
       \<and> appended (history (snd (turn_loop W i remaining_turns s))) =
           appended (history s) @
           [AssistantTurn model_response,
            ToolResultTurn (tool_call_id tool_call) TOOL_RESULT_INTERRUPT_MESSAGE,
            AssistantTurn [TextResult TOOL_CALL_INTERRUPT_FAKE_MODEL_RSP]]
       \<and> message_queue (snd (turn_loop W i remaining_turns s)) =
           message_queue s @ thinking_events model_response @
           [\<lparr>event_type = TOOL_CALL,
             content = [(''tool_call_id'', tool_call_id tool_call),
                        (''tool_name'', tool_name tool_call),
                        (''tool_input'', tool_input tool_call)]\<rparr>,
            \<lparr>event_type = TOOL_RESULT,
             content = [(''tool_call_id'', tool_call_id tool_call),
                        (''tool_name'', tool_name tool_call),
                        (''result'', TOOL_RESULT_INTERRUPT_MESSAGE)]\<rparr>,
            \<lparr>event_type = AGENT_RESPONSE_INTERRUPTED,
             content = [(''text'', TOOL_CALL_INTERRUPT_FAKE_MODEL_RSP)]\<rparr>]
       \<and> tools_run (snd (turn_loop W i remaining_turns s)) = tools_run s"
proof -
  note rt = run_turn_second_checkpoint[OF assms(2-7)]
  obtain s' where r: "run_turn W (env W i) s =
      (Return \<lparr>tool_output = TOOL_RESULT_INTERRUPT_MESSAGE,
               tool_result_message = TOOL_RESULT_INTERRUPT_MESSAGE\<rparr>, s')"
    using rt(1) by (cases "run_turn W (env W i) s") auto
  have tl: "turn_loop W i remaining_turns s =
      (Inr \<lparr>tool_output = TOOL_RESULT_INTERRUPT_MESSAGE,
            tool_result_message = TOOL_RESULT_INTERRUPT_MESSAGE\<rparr>, s')"
    using assms(1) r by (subst turn_loop.simps) simp
  show ?thesis
    using rt(2-5) r by (simp add: tl)
qed

theorem interrupted_before_tool_execution_witness:
  "fst (turn_loop (constant_world (scripted False [ToolCall call_a] True (''ok'', None) False)) 0 3
          (init [] empty_history [] 3)) =
     Inr \<lparr>tool_output = ''Tool execution interrupted by user.'',
          tool_result_message = ''Tool execution interrupted by user.''\<rparr>
   \<and> appended (history (snd (turn_loop
          (constant_world (scripted False [ToolCall call_a] True (''ok'', None) False)) 0 3
          (init [] empty_history [] 3)))) =
       [AssistantTurn [ToolCall call_a],
        ToolResultTurn ''call-a'' ''Tool execution interrupted by user.'',
        AssistantTurn [TextResult
          ''Tool execution interrupted by user. You can resume by providing a new instruction.'']]
   \<and> map event_type (message_queue (snd (turn_loop
          (constant_world (scripted False [ToolCall call_a] True (''ok'', None) False)) 0 3
          (init [] empty_history [] 3)))) = [TOOL_CALL, TOOL_RESULT, AGENT_RESPONSE_INTERRUPTED]
   \<and> tools_run (snd (turn_loop
          (constant_world (scripted False [ToolCall call_a] True (''ok'', None) False)) 0 3
          (init [] empty_history [] 3))) = []"
  using interrupted_before_tool_execution
          [of 3 "init [] empty_history [] 3" "[]"
              "constant_world (scripted False [ToolCall call_a] True (''ok'', None) False)" 0
              "[ToolCall call_a]" call_a]
  by (simp add: example_defs validate_no_tools TOOL_RESULT_INTERRUPT_MESSAGE_def
        TOOL_CALL_INTERRUPT_FAKE_MODEL_RSP_def)

subsection \<open>The turn budget\<close>

lemma validate_tools_cong:
  "tools s' = tools s \<Longrightarrow> validate_tool_parameters s' = validate_tool_parameters s"
  by (simp add: validate_tool_parameters_def)

lemma turn_loop_model_calls:
  "model_calls (snd (turn_loop W i n s)) \<le> model_calls s + nat n"
proof -
  let ?I = "\<lambda>(i::nat) (k::int) (t::FunctionCallAgent). model_calls t + nat k \<le> model_calls s + nat n"
  have "model_calls (snd (turn_loop W i n s)) \<le> model_calls s + nat n"
  proof (rule turn_loop_rule[where I = ?I and Q = "\<lambda>r. model_calls (snd r) \<le> model_calls s + nat n"])
    show "?I i n s" by simp
  next
    fix i k t t'
    assume a: "?I i k t" "0 < k" "run_turn W (env W i) t = (Continue, t')"
    from run_turn_model_calls[of W "env W i" t] a(3)
    have "model_calls t' \<le> Suc (model_calls t)" by simp
    with a(1,2) show "?I (Suc i) (k - 1) t'" by (simp add: nat_diff_distrib; linarith)
  next
    fix i k t t' out
    assume a: "?I i k t" "0 < k" "run_turn W (env W i) t = (Return out, t')"
    from run_turn_model_calls[of W "env W i" t] a(3)
    have "model_calls t' \<le> Suc (model_calls t)" by simp
    with a(1,2) show "model_calls (snd (Inr out :: error + ToolImplOutput, t')) \<le> model_calls s + nat n"
      by (simp; linarith)
  next
    fix i k t t' err
    assume a: "?I i k t" "0 < k" "run_turn W (env W i) t = (Raise err, t')"
    from run_turn_model_calls[of W "env W i" t] a(3)
    have "model_calls t' \<le> Suc (model_calls t)" by simp
    with a(1,2) show "model_calls (snd (Inl err :: error + ToolImplOutput, t')) \<le> model_calls s + nat n"
      by (simp; linarith)
  next
    fix i k and t :: FunctionCallAgent
    assume "?I i k t" "k \<le> 0"
    then show "model_calls (snd (max_turns_exit t)) \<le> model_calls s + nat n"
      by (simp add: max_turns_exit_frame)
  qed
  then show ?thesis .
qed

lemma run_turn_uneventful:
  assumes "validate_tool_parameters s = Inr params"
      and "\<not> interrupted s" and "stop_signal s = None"
      and "\<not> cancel_before_model e" and "\<not> cancel_during_model e" and "\<not> cancel_during_tool e"
      and "\<forall>messages. length (tool_calls_of (generate e messages)) = 1"
      and "\<forall>call messages. snd (run_tool e call messages) = None"
  shows "fst (run_turn W e s) = Continue"
    and "\<not> interrupted (snd (run_turn W e s))"
    and "stop_signal (snd (run_turn W e s)) = None"
    and "model_calls (snd (run_turn W e s)) = Suc (model_calls s)"
proof -
  define g where "g = generate e (truncation W (turns (history s)))"
  from assms(7) have "length (tool_calls_of g) = 1" by (simp add: g_def)
  then obtain c where c: "tool_calls_of g = [c]"
    by (cases "tool_calls_of g") auto
  then have ne: "g \<noteq> []" by auto
  show "fst (run_turn W e s) = Continue"
    and "\<not> interrupted (snd (run_turn W e s))"
    and "stop_signal (snd (run_turn W e s)) = None"
    and "model_calls (snd (run_turn W e s)) = Suc (model_calls s)"
    using assms(1-6,8) c ne
    by (simp_all add: run_turn_def Let_def g_def[symmetric] handle_unfold[OF refl refl]
          execute_tool_call_def small_defs)
qed

lemma turn_loop_uneventful:
  assumes "validate_tool_parameters s = Inr params"
      and "\<not> interrupted s" and "stop_signal s = None"
      and "\<forall>j<nat n. \<not> cancel_before_model (env W (i + j)) \<and> \<not> cancel_during_model (env W (i + j))
              \<and> \<not> cancel_during_tool (env W (i + j))
              \<and> (\<forall>messages. length (tool_calls_of (generate (env W (i + j)) messages)) = 1)
              \<and> (\<forall>call messages. snd (run_tool (env W (i + j)) call messages) = None)"
  shows "\<exists>s'. turn_loop W i n s = max_turns_exit s' \<and> model_calls s' = model_calls s + nat n"
  using assms
proof (induction "nat n" arbitrary: i n s)
  case 0
  then have "n \<le> 0" by simp
  then show ?case by (subst turn_loop.simps) auto
next
  case (Suc k)
  then have pos: "0 < n" and k: "k = nat (n - 1)" by auto
  from Suc(6) pos have q0: "\<not> cancel_before_model (env W i) \<and> \<not> cancel_during_model (env W i)
              \<and> \<not> cancel_during_tool (env W i)
              \<and> (\<forall>messages. length (tool_calls_of (generate (env W i) messages)) = 1)
              \<and> (\<forall>call messages. snd (run_tool (env W i) call messages) = None)"
    by (metis add.right_neutral zero_less_nat_eq)
  note rt = run_turn_uneventful[OF Suc(3,4,5), of "env W i" W]
  obtain s' where r: "run_turn W (env W i) s = (Continue, s')"
    using rt(1) q0 by (cases "run_turn W (env W i) s") auto
  have v': "validate_tool_parameters s' = Inr params"
    using run_turn_tools[of W "env W i" s] r Suc(3) validate_tools_cong[of s' s] by simp
  have i': "\<not> interrupted s'" "stop_signal s' = None" "model_calls s' = Suc (model_calls s)"
    using rt(2-4) q0 r by simp_all
  have q': "\<forall>j<nat (n - 1). \<not> cancel_before_model (env W (Suc i + j)) \<and> \<not> cancel_during_model (env W (Suc i + j))
              \<and> \<not> cancel_during_tool (env W (Suc i + j))
              \<and> (\<forall>messages. length (tool_calls_of (generate (env W (Suc i + j)) messages)) = 1)
              \<and> (\<forall>call messages. snd (run_tool (env W (Suc i + j)) call messages) = None)"
  proof (intro allI impI)
    fix j assume "j < nat (n - 1)"
    then have "Suc j < nat n" using pos by linarith
    with Suc(6) show "\<not> cancel_before_model (env W (Suc i + j)) \<and> \<not> cancel_during_model (env W (Suc i + j))
              \<and> \<not> cancel_during_tool (env W (Suc i + j))
              \<and> (\<forall>messages. length (tool_calls_of (generate (env W (Suc i + j)) messages)) = 1)
              \<and> (\<forall>call messages. snd (run_tool (env W (Suc i + j)) call messages) = None)"
      by (metis add_Suc_shift)
  qed
  from Suc(1)[OF k v' i'(1,2) q'] obtain s'' where
    "turn_loop W (Suc i) (n - 1) s' = max_turns_exit s''"
    "model_calls s'' = model_calls s' + nat (n - 1)" by blast
  moreover have "turn_loop W i n s = turn_loop W (Suc i) (n - 1) s'"
    using pos r by (subst turn_loop.simps) simp
  ultimately show ?case using i'(3) pos by (intro exI[of _ s'']) (simp; linarith)
qed


lemma prologue_frame:
  "tools (run_impl_prologue W instruction files (run_agent_async_prologue resume s)) = tools s"
  "max_turns (run_impl_prologue W instruction files (run_agent_async_prologue resume s)) = max_turns s"
  "model_calls (run_impl_prologue W instruction files (run_agent_async_prologue resume s)) = model_calls s"
  "message_queue (run_impl_prologue W instruction files (run_agent_async_prologue resume s)) = message_queue s"
  "tools_run (run_impl_prologue W instruction files (run_agent_async_prologue resume s)) = tools_run s"
  "stop_signal (run_impl_prologue W instruction files (run_agent_async_prologue resume s)) = None"
  "\<not> interrupted (run_impl_prologue W instruction files (run_agent_async_prologue resume s))"
  by (simp_all add: run_impl_prologue_def run_agent_async_prologue_def Let_def)

lemma run_agent_async_loop:
  "run_agent_async W instruction files resume s =
     turn_loop W 0 (max_turns s)
       (run_impl_prologue W instruction files (run_agent_async_prologue resume s))"
  by (simp add: run_agent_async_def run_impl_def Let_def prologue_frame)

text \<open>
  C2. A run started on an agent whose \<^verbatim>\<open>max_turns\<close> is N calls the model at most N times
  (no time when N is negative). If the tools are valid and, in each of the first N turns,
  no \<^verbatim>\<open>cancel()\<close> arrives, the model answers with exactly one tool invocation and the
  tool does not signal the end of the task, then the model is called exactly N times and
  the run returns "Agent did not complete after max turns", which is also the text of
  the last event put into the queue, an agent-response event.
\<close>

theorem turn_budget:
  "model_calls (snd (run_agent_async W instruction files resume s))
     \<le> model_calls s + nat (max_turns s)
   \<and> (validate_tool_parameters s = Inr params
      \<and> (\<forall>j<nat (max_turns s).
            \<not> cancel_before_model (env W j) \<and> \<not> cancel_during_model (env W j)
          \<and> \<not> cancel_during_tool (env W j)
          \<and> (\<forall>messages. length (tool_calls_of (generate (env W j) messages)) = 1)
          \<and> (\<forall>call messages. snd (run_tool (env W j) call messages) = None))
     \<longrightarrow> fst (run_agent_async W instruction files resume s) =
           Inr \<lparr>tool_output = ''Agent did not complete after max turns'',
                tool_result_message = ''Agent did not complete after max turns''\<rparr>
       \<and> model_calls (snd (run_agent_async W instruction files resume s)) =
           model_calls s + nat (max_turns s)
       \<and> last (message_queue (snd (run_agent_async W instruction files resume s))) =
           \<lparr>event_type = AGENT_RESPONSE,
            content = [(''text'', ''Agent did not complete after max turns'')]\<rparr>)"
proof (intro conjI impI)
  show "model_calls (snd (run_agent_async W instruction files resume s))
          \<le> model_calls s + nat (max_turns s)"
    using turn_loop_model_calls
            [of W 0 "max_turns s"
                "run_impl_prologue W instruction files (run_agent_async_prologue resume s)"]
    by (simp add: run_agent_async_loop prologue_frame)
next
  define s1 where "s1 = run_impl_prologue W instruction files (run_agent_async_prologue resume s)"
  assume h: "validate_tool_parameters s = Inr params
      \<and> (\<forall>j<nat (max_turns s).
            \<not> cancel_before_model (env W j) \<and> \<not> cancel_during_model (env W j)
          \<and> \<not> cancel_during_tool (env W j)
          \<and> (\<forall>messages. length (tool_calls_of (generate (env W j) messages)) = 1)
          \<and> (\<forall>call messages. snd (run_tool (env W j) call messages) = None))"
  have v: "validate_tool_parameters s1 = Inr params"
    using h validate_tools_cong[of s1 s] by (simp add: s1_def prologue_frame)
  have q: "\<forall>j<nat (max_turns s).
            \<not> cancel_before_model (env W (0 + j)) \<and> \<not> cancel_during_model (env W (0 + j))
          \<and> \<not> cancel_during_tool (env W (0 + j))
          \<and> (\<forall>messages. length (tool_calls_of (generate (env W (0 + j)) messages)) = 1)
          \<and> (\<forall>call messages. snd (run_tool (env W (0 + j)) call messages) = None)"
    using h by simp
  from turn_loop_uneventful[OF v _ _ q]
  obtain s' where r: "turn_loop W 0 (max_turns s) s1 = max_turns_exit s'"
    and m: "model_calls s' = model_calls s1 + nat (max_turns s)"
    by (auto simp: s1_def prologue_frame)
  have eq: "run_agent_async W instruction files resume s = max_turns_exit s'"
    using r by (simp add: run_agent_async_loop s1_def)
  show "fst (run_agent_async W instruction files resume s) =
           Inr \<lparr>tool_output = ''Agent did not complete after max turns'',
                tool_result_message = ''Agent did not complete after max turns''\<rparr>"
    by (simp add: eq max_turns_exit_def Let_def)
  show "model_calls (snd (run_agent_async W instruction files resume s)) =
           model_calls s + nat (max_turns s)"
    using m by (simp add: eq max_turns_exit_frame s1_def prologue_frame)
  show "last (message_queue (snd (run_agent_async W instruction files resume s))) =
           \<lparr>event_type = AGENT_RESPONSE,
            content = [(''text'', ''Agent did not complete after max turns'')]\<rparr>"
    by (simp add: eq max_turns_exit_def Let_def put_nowait_def)
qed

theorem turn_budget_witness:
  "fst (run_agent_async (constant_world (scripted False [ToolCall call_a] False (''ok'', None) False))
          ''hi'' None False (init [] empty_history [] 2)) =
     Inr \<lparr>tool_output = ''Agent did not complete after max turns'',
          tool_result_message = ''Agent did not complete after max turns''\<rparr>
   \<and> model_calls (snd (run_agent_async
          (constant_world (scripted False [ToolCall call_a] False (''ok'', None) False))
          ''hi'' None False (init [] empty_history [] 2))) = 2"
  using turn_budget
          [of "constant_world (scripted False [ToolCall call_a] False (''ok'', None) False)"
              "''hi''" None False "init [] empty_history [] 2" "[]"]
  by (simp add: example_defs validate_no_tools)

subsection \<open>The run entry point and the interruption flag\<close>

text \<open>
  C9. Called with \<^verbatim>\<open>resume=True\<close>, the entry point leaves the history as it is, so the
  loop begins on the old Turns followed by the new user prompt, with the flag reset.
  Called with \<^verbatim>\<open>resume=False\<close>, it empties the ledger and resets the flag, so the loop
  begins on the user prompt alone. In both cases the run is the loop started from that
  state.
\<close>

theorem resume_keeps_ledger:
  "history (run_agent_async_prologue True s) = history s
   \<and> turns (history (run_impl_prologue W instruction files (run_agent_async_prologue True s))) =
       turns (history s) @
       [UserTurn (fst (user_prompt_of W instruction files)) (snd (user_prompt_of W instruction files))]
   \<and> interrupted (run_impl_prologue W instruction files (run_agent_async_prologue True s)) = False
   \<and> turns (history (run_agent_async_prologue False s)) = []
   \<and> interrupted (run_agent_async_prologue False s) = False
   \<and> turns (history (run_impl_prologue W instruction files (run_agent_async_prologue False s))) =
       [UserTurn (fst (user_prompt_of W instruction files)) (snd (user_prompt_of W instruction files))]
   \<and> interrupted (run_impl_prologue W instruction files (run_agent_async_prologue False s)) = False
   \<and> run_agent_async W instruction files resume s =
       turn_loop W 0 (max_turns s)
         (run_impl_prologue W instruction files (run_agent_async_prologue resume s))"
  by (simp add: run_agent_async_loop)
     (simp add: run_impl_prologue_def run_agent_async_prologue_def Let_def
        add_user_prompt_def append_turn_def clear_history_def)

theorem resume_keeps_ledger_witness:
  "turns (history (run_impl_prologue (constant_world (scripted False [] False ([], None) False))
       ''again'' None
       (run_agent_async_prologue True
          (cancel (init [] \<lparr>turns = [UserTurn ''hi'' []], appended = [UserTurn ''hi'' []]\<rparr> [] 3))))) =
     [UserTurn ''hi'' [], UserTurn ''again'' []]
   \<and> interrupted (run_impl_prologue (constant_world (scripted False [] False ([], None) False))
       ''again'' None
       (run_agent_async_prologue True
          (cancel (init [] \<lparr>turns = [UserTurn ''hi'' []], appended = [UserTurn ''hi'' []]\<rparr> [] 3)))) = False
   \<and> turns (history (run_agent_async_prologue False
          (cancel (init [] \<lparr>turns = [UserTurn ''hi'' []], appended = [UserTurn ''hi'' []]\<rparr> [] 3)))) = []"
  using resume_keeps_ledger
    [of "cancel (init [] \<lparr>turns = [UserTurn ''hi'' []], appended = [UserTurn ''hi'' []]\<rparr> [] 3)"
        "constant_world (scripted False [] False ([], None) False)" "''again''" None True]
  by (simp add: user_prompt_of_def cancel_def init_def)

lemma thinking_events_types: "ev \<in> set (thinking_events bs) \<Longrightarrow> event_type ev = AGENT_THINKING"
  by (induction bs rule: thinking_events.induct) auto

lemma execute_no_cancel:
  assumes "\<not> interrupted s" and "\<not> cancel_during_tool e"
  shows "\<not> interrupted (snd (execute_tool_call e c s))"
    and "\<exists>evs. message_queue (snd (execute_tool_call e c s)) = message_queue s @ evs
           \<and> AGENT_RESPONSE_INTERRUPTED \<notin> set (map event_type evs)"
    and "fst (execute_tool_call e c s) = Return out \<Longrightarrow> tool_result_message out = ''Task completed''"
  using assms
  by (auto simp add: execute_tool_call_def Let_def small_defs split: option.splits)

lemma handle_no_cancel:
  assumes "\<not> interrupted s" and "\<not> cancel_during_tool e"
  shows "\<not> interrupted (snd (handle_model_response W e g s))"
    and "\<exists>evs. message_queue (snd (handle_model_response W e g s)) = message_queue s @ evs
           \<and> AGENT_RESPONSE_INTERRUPTED \<notin> set (map event_type evs)"
    and "fst (handle_model_response W e g s) = Return out \<Longrightarrow> tool_result_message out = ''Task completed''"
proof -
  define resp where "resp = (if length g = 0 then [TextResult (COMPLETE_MESSAGE W)] else g)"
  define s2 where "s2 = s\<lparr>history := add_assistant_turn resp (history s),
       message_queue := message_queue s @ thinking_events resp\<rparr>"
  note eq = handle_unfold[OF resp_def s2_def, of e]
  have th: "AGENT_RESPONSE_INTERRUPTED \<notin> set (map event_type (thinking_events resp))"
    using thinking_events_types[of _ resp] by auto
  have all: "\<not> interrupted (snd (handle_model_response W e g s))
     \<and> (\<exists>evs. message_queue (snd (handle_model_response W e g s)) = message_queue s @ evs
           \<and> AGENT_RESPONSE_INTERRUPTED \<notin> set (map event_type evs))
     \<and> (fst (handle_model_response W e g s) = Return out \<longrightarrow> tool_result_message out = ''Task completed'')"
  proof (cases "tool_calls_of resp")
    case Nil
    then show ?thesis using assms(1) th by (auto simp add: eq s2_def put_nowait_def)
  next
    case (Cons c cs)
    show ?thesis
    proof (cases cs)
      case (Cons d ds)
      then show ?thesis using assms(1) th \<open>tool_calls_of resp = c # cs\<close>
        by (auto simp add: eq s2_def)
    next
      case Nil
      define s3 where "s3 = put_nowait
                   \<lparr>event_type = TOOL_CALL,
                    content = [(''tool_call_id'', tool_call_id c),
                               (''tool_name'', tool_name c),
                               (''tool_input'', tool_input c)]\<rparr> s2"
      have i3: "\<not> interrupted s3" using assms(1) by (simp add: s3_def s2_def put_nowait_def)
      have q3: "message_queue s3 = message_queue s @ thinking_events resp @
                   [\<lparr>event_type = TOOL_CALL,
                    content = [(''tool_call_id'', tool_call_id c),
                               (''tool_name'', tool_name c),
                               (''tool_input'', tool_input c)]\<rparr>]"
        by (simp add: s3_def s2_def put_nowait_def)
      have eq': "handle_model_response W e g s = execute_tool_call e c s3"
        using Nil \<open>tool_calls_of resp = c # cs\<close> by (simp add: eq s3_def)
      from execute_no_cancel(2)[OF i3 assms(2), of c] obtain evs where
        ev: "message_queue (snd (execute_tool_call e c s3)) = message_queue s3 @ evs"
        "AGENT_RESPONSE_INTERRUPTED \<notin> set (map event_type evs)" by blast
      have "message_queue (snd (handle_model_response W e g s)) =
              message_queue s @ (thinking_events resp @
                   [\<lparr>event_type = TOOL_CALL,
                    content = [(''tool_call_id'', tool_call_id c),
                               (''tool_name'', tool_name c),
                               (''tool_input'', tool_input c)]\<rparr>] @ evs)"
        using ev(1) q3 by (simp add: eq')
      moreover have "AGENT_RESPONSE_INTERRUPTED \<notin> set (map event_type (thinking_events resp @
                   [\<lparr>event_type = TOOL_CALL,
                    content = [(''tool_call_id'', tool_call_id c),
                               (''tool_name'', tool_name c),
                               (''tool_input'', tool_input c)]\<rparr>] @ evs))"
        using th ev(2) by auto
      ultimately have "\<exists>evs. message_queue (snd (handle_model_response W e g s)) = message_queue s @ evs
           \<and> AGENT_RESPONSE_INTERRUPTED \<notin> set (map event_type evs)" by blast
      then show ?thesis
        using execute_no_cancel(1)[OF i3 assms(2), of c] execute_no_cancel(3)[OF i3 assms(2), of c out]
        by (simp add: eq')
    qed
  qed
  from all show "\<not> interrupted (snd (handle_model_response W e g s))" by simp
  from all show "\<exists>evs. message_queue (snd (handle_model_response W e g s)) = message_queue s @ evs
           \<and> AGENT_RESPONSE_INTERRUPTED \<notin> set (map event_type evs)" by simp
  from all show "fst (handle_model_response W e g s) = Return out \<Longrightarrow> tool_result_message out = ''Task completed''"
    by simp
qed

lemma run_turn_no_cancel:
  assumes "\<not> interrupted s"
      and "\<not> cancel_before_model e" and "\<not> cancel_during_model e" and "\<not> cancel_during_tool e"
  shows "\<not> interrupted (snd (run_turn W e s))"
    and "\<exists>evs. message_queue (snd (run_turn W e s)) = message_queue s @ evs
           \<and> AGENT_RESPONSE_INTERRUPTED \<notin> set (map event_type evs)"
    and "fst (run_turn W e s) = Return out \<Longrightarrow> tool_result_message out = ''Task completed''"
proof -
  show "\<not> interrupted (snd (run_turn W e s))"
    and "\<exists>evs. message_queue (snd (run_turn W e s)) = message_queue s @ evs
           \<and> AGENT_RESPONSE_INTERRUPTED \<notin> set (map event_type evs)"
    and "fst (run_turn W e s) = Return out \<Longrightarrow> tool_result_message out = ''Task completed''"
  proof (atomize (full), cases "validate_tool_parameters s")
    case (Inl err)
    then show "\<not> interrupted (snd (run_turn W e s))
      \<and> (\<exists>evs. message_queue (snd (run_turn W e s)) = message_queue s @ evs
           \<and> AGENT_RESPONSE_INTERRUPTED \<notin> set (map event_type evs))
      \<and> (fst (run_turn W e s) = Return out \<longrightarrow> tool_result_message out = ''Task completed'')"
      using assms(1) by (simp add: run_turn_def Let_def small_defs)
  next
    case (Inr ps)
    define s4 where "s4 = s\<lparr>history := history_truncate (truncation W) (history s),
                             model_calls := Suc (model_calls s)\<rparr>"
    have eq: "run_turn W e s =
            handle_model_response W e (generate e (truncation W (turns (history s)))) s4"
      using Inr assms by (simp add: run_turn_def Let_def small_defs s4_def)
    have i4: "\<not> interrupted s4" and q4: "message_queue s4 = message_queue s"
      using assms(1) by (simp_all add: s4_def)
    show "\<not> interrupted (snd (run_turn W e s))
      \<and> (\<exists>evs. message_queue (snd (run_turn W e s)) = message_queue s @ evs
           \<and> AGENT_RESPONSE_INTERRUPTED \<notin> set (map event_type evs))
      \<and> (fst (run_turn W e s) = Return out \<longrightarrow> tool_result_message out = ''Task completed'')"
      using handle_no_cancel[OF i4 assms(4)] q4 by (simp add: eq)
  qed
qed


lemma turn_loop_no_cancel:
  assumes "\<not> interrupted s"
      and "\<forall>j. \<not> cancel_before_model (env W j) \<and> \<not> cancel_during_model (env W j)
               \<and> \<not> cancel_during_tool (env W j)"
  shows "\<not> interrupted (snd (turn_loop W i n s))
       \<and> (\<exists>evs. message_queue (snd (turn_loop W i n s)) = message_queue s @ evs
             \<and> AGENT_RESPONSE_INTERRUPTED \<notin> set (map event_type evs))
       \<and> (\<forall>out. fst (turn_loop W i n s) = Inr out \<longrightarrow>
             tool_result_message out = ''Task completed''
           \<or> tool_result_message out = ''Agent did not complete after max turns'')"
proof -
  let ?I = "\<lambda>t::FunctionCallAgent. \<not> interrupted t
       \<and> (\<exists>evs. message_queue t = message_queue s @ evs
             \<and> AGENT_RESPONSE_INTERRUPTED \<notin> set (map event_type evs))"
  let ?Q = "\<lambda>r::(error + ToolImplOutput) \<times> FunctionCallAgent. ?I (snd r)
       \<and> (\<forall>out. fst r = Inr out \<longrightarrow>
             tool_result_message out = ''Task completed''
           \<or> tool_result_message out = ''Agent did not complete after max turns'')"
  have step: "?I t' \<and> (x = Return out \<longrightarrow> tool_result_message out = ''Task completed'')"
    if "?I t" and "run_turn W (env W j) t = (x, t')" for t t' j x out
  proof -
    from that(1) obtain evs where
      e: "\<not> interrupted t" "message_queue t = message_queue s @ evs"
         "AGENT_RESPONSE_INTERRUPTED \<notin> set (map event_type evs)" by blast
    from assms(2) have nc: "\<not> cancel_before_model (env W j)" "\<not> cancel_during_model (env W j)"
      "\<not> cancel_during_tool (env W j)" by simp_all
    note rt = run_turn_no_cancel[OF e(1) nc, of W]
    from rt(2) that(2) obtain evs' where
      e': "message_queue t' = message_queue t @ evs'"
          "AGENT_RESPONSE_INTERRUPTED \<notin> set (map event_type evs')" by auto
    have "message_queue t' = message_queue s @ (evs @ evs')
          \<and> AGENT_RESPONSE_INTERRUPTED \<notin> set (map event_type (evs @ evs'))"
      using e e' by simp
    then have "\<exists>evs. message_queue t' = message_queue s @ evs
             \<and> AGENT_RESPONSE_INTERRUPTED \<notin> set (map event_type evs)" by blast
    moreover have "\<not> interrupted t'" using rt(1) that(2) by simp
    moreover have "x = Return out \<longrightarrow> tool_result_message out = ''Task completed''"
      using rt(3)[of out] that(2) by simp
    ultimately show ?thesis by simp
  qed
  have exit: "?Q (max_turns_exit t)" if "?I t" for t
  proof -
    from that obtain evs where
      e: "\<not> interrupted t" "message_queue t = message_queue s @ evs"
         "AGENT_RESPONSE_INTERRUPTED \<notin> set (map event_type evs)" by blast
    have "message_queue (snd (max_turns_exit t)) = message_queue s @ (evs @
            [\<lparr>event_type = AGENT_RESPONSE,
              content = [(''text'', ''Agent did not complete after max turns'')]\<rparr>])
        \<and> AGENT_RESPONSE_INTERRUPTED \<notin> set (map event_type (evs @
            [\<lparr>event_type = AGENT_RESPONSE,
              content = [(''text'', ''Agent did not complete after max turns'')]\<rparr>]))"
      using e by (simp add: max_turns_exit_def Let_def put_nowait_def)
    then have "\<exists>evs. message_queue (snd (max_turns_exit t)) = message_queue s @ evs
             \<and> AGENT_RESPONSE_INTERRUPTED \<notin> set (map event_type evs)" by blast
    moreover have "\<not> interrupted (snd (max_turns_exit t))"
      using e(1) by (simp add: max_turns_exit_def Let_def put_nowait_def)
    moreover have "\<forall>out. fst (max_turns_exit t) = Inr out \<longrightarrow>
             tool_result_message out = ''Agent did not complete after max turns''"
      by (auto simp add: max_turns_exit_def Let_def)
    ultimately show ?thesis by simp
  qed
  have "?Q (turn_loop W i n s)"
  proof (rule turn_loop_rule[where I = "\<lambda>i n t. ?I t" and Q = ?Q])
    show "?I s" using assms(1) by simp
  next
    fix i n t t' assume "?I t" "run_turn W (env W i) t = (Continue, t')"
    from step[OF this] show "?I t'" by simp
  next
    fix i n t out t' assume "?I t" "run_turn W (env W i) t = (Return out, t')"
    from step[OF this, of out] show "?Q (Inr out, t')" by simp
  next
    fix i n t err t' assume "?I t" "run_turn W (env W i) t = (Raise err, t')"
    from step[OF this] show "?Q (Inl err, t')" by simp
  next
    fix i n t assume "?I t"
    from exit[OF this] show "?Q (max_turns_exit t)" .
  qed
  then show ?thesis by simp
qed

lemma prologue_cancel:
  "run_impl_prologue W instruction files (run_agent_async_prologue resume (cancel s)) =
   run_impl_prologue W instruction files (run_agent_async_prologue resume s)"
  by (simp add: run_impl_prologue_def run_agent_async_prologue_def Let_def cancel_def)

text \<open>
  C10. \<^verbatim>\<open>run_impl\<close> resets the flag when it has appended the user prompt, before the
  first turn, on every run. So a run that follows a \<^verbatim>\<open>cancel()\<close> is the same run, with
  the same result and the same final state, as if \<^verbatim>\<open>cancel()\<close> had not been called.
  And when no \<^verbatim>\<open>cancel()\<close> arrives during the turns of such a run, the run does not end
  interrupted: the flag is clear at its end, no agent-response-interrupted event is among
  the events it emitted, and its result is neither of the two interruption results.
\<close>

theorem cancel_before_run_is_discarded:
  "\<not> interrupted (run_impl_prologue W instruction files s)
   \<and> run_agent_async W instruction files resume (cancel s) =
       run_agent_async W instruction files resume s
   \<and> ((\<forall>j. \<not> cancel_before_model (env W j) \<and> \<not> cancel_during_model (env W j)
             \<and> \<not> cancel_during_tool (env W j))
      \<longrightarrow> \<not> interrupted (snd (run_agent_async W instruction files resume (cancel s)))
        \<and> AGENT_RESPONSE_INTERRUPTED \<notin>
            set (map event_type
                  (drop (length (message_queue s))
                     (message_queue (snd (run_agent_async W instruction files resume (cancel s))))))
        \<and> fst (run_agent_async W instruction files resume (cancel s)) \<noteq>
            Inr \<lparr>tool_output = AGENT_INTERRUPT_MESSAGE,
                 tool_result_message = AGENT_INTERRUPT_MESSAGE\<rparr>
        \<and> fst (run_agent_async W instruction files resume (cancel s)) \<noteq>
            Inr \<lparr>tool_output = TOOL_RESULT_INTERRUPT_MESSAGE,
                 tool_result_message = TOOL_RESULT_INTERRUPT_MESSAGE\<rparr>)"
proof (intro conjI impI)
  show "\<not> interrupted (run_impl_prologue W instruction files s)"
    by (simp add: run_impl_prologue_def Let_def)
  show same: "run_agent_async W instruction files resume (cancel s) =
       run_agent_async W instruction files resume s"
    unfolding run_agent_async_loop prologue_cancel by (simp add: cancel_def)
  assume nc: "\<forall>j. \<not> cancel_before_model (env W j) \<and> \<not> cancel_during_model (env W j)
             \<and> \<not> cancel_during_tool (env W j)"
  define s1 where "s1 = run_impl_prologue W instruction files (run_agent_async_prologue resume s)"
  have r: "run_agent_async W instruction files resume s = turn_loop W 0 (max_turns s) s1"
    by (simp add: run_agent_async_loop s1_def)
  have i1: "\<not> interrupted s1" and q1: "message_queue s1 = message_queue s"
    by (simp_all add: s1_def prologue_frame)
  note tl = turn_loop_no_cancel[OF i1 nc, of 0 "max_turns s"]
  from tl obtain evs where
    ev: "message_queue (snd (turn_loop W 0 (max_turns s) s1)) = message_queue s @ evs"
        "AGENT_RESPONSE_INTERRUPTED \<notin> set (map event_type evs)"
    using q1 by auto
  show "\<not> interrupted (snd (run_agent_async W instruction files resume (cancel s)))"
    using tl by (simp add: same r)
  show "AGENT_RESPONSE_INTERRUPTED \<notin>
            set (map event_type
                  (drop (length (message_queue s))
                     (message_queue (snd (run_agent_async W instruction files resume (cancel s))))))"
    using ev by (simp add: same r)
  show "fst (run_agent_async W instruction files resume (cancel s)) \<noteq>
            Inr \<lparr>tool_output = AGENT_INTERRUPT_MESSAGE,
                 tool_result_message = AGENT_INTERRUPT_MESSAGE\<rparr>"
    using tl by (auto simp add: same r AGENT_INTERRUPT_MESSAGE_def)
  show "fst (run_agent_async W instruction files resume (cancel s)) \<noteq>
            Inr \<lparr>tool_output = TOOL_RESULT_INTERRUPT_MESSAGE,
                 tool_result_message = TOOL_RESULT_INTERRUPT_MESSAGE\<rparr>"
    using tl by (auto simp add: same r TOOL_RESULT_INTERRUPT_MESSAGE_def)
qed

theorem cancel_before_run_is_discarded_witness:
  "run_agent_async (constant_world (scripted False [] False ([], None) False)) ''hi'' None True
       (cancel (init [] empty_history [] 3)) =
     run_agent_async (constant_world (scripted False [] False ([], None) False)) ''hi'' None True
       (init [] empty_history [] 3)
   \<and> \<not> interrupted (snd (run_agent_async (constant_world (scripted False [] False ([], None) False))
       ''hi'' None True (cancel (init [] empty_history [] 3))))
   \<and> fst (run_agent_async (constant_world (scripted False [] False ([], None) False))
       ''hi'' None True (cancel (init [] empty_history [] 3))) \<noteq>
       Inr \<lparr>tool_output = AGENT_INTERRUPT_MESSAGE, tool_result_message = AGENT_INTERRUPT_MESSAGE\<rparr>"
proof -
  have nc: "\<forall>j. \<not> cancel_before_model
                 (env (constant_world (scripted False [] False ([], None) False)) j)
             \<and> \<not> cancel_during_model
                 (env (constant_world (scripted False [] False ([], None) False)) j)
             \<and> \<not> cancel_during_tool
                 (env (constant_world (scripted False [] False ([], None) False)) j)"
    by (simp add: example_defs)
  from cancel_before_run_is_discarded
         [of "constant_world (scripted False [] False ([], None) False)" "''hi''" None
             "init [] empty_history [] 3" True] nc
  show ?thesis by blast
qed

subsection \<open>Validation of the tools\<close>

lemma adjacent_duplicate_distinct: "distinct xs \<Longrightarrow> adjacent_duplicate xs = None"
  by (induction xs rule: adjacent_duplicate.induct) auto

lemma adjacent_duplicate_sorted:
  "sorted xs \<Longrightarrow> adjacent_duplicate xs = None \<Longrightarrow> distinct xs"
proof (induction xs rule: adjacent_duplicate.induct)
  case (1 x y rest)
  then have xy: "x \<noteq> y" and rec: "adjacent_duplicate (y # rest) = None"
    by (auto split: if_splits)
  from 1(2) have le: "x \<le> y" and ys: "\<forall>z\<in>set rest. y \<le> z" and s: "sorted (y # rest)"
    by auto
  from xy le have "x < y" by simp
  with ys have "x \<notin> set (y # rest)" by auto
  moreover have "distinct (y # rest)" using 1(1)[OF xy s rec] .
  ultimately show ?case by simp
qed auto

lemma adjacent_duplicate_twice:
  "adjacent_duplicate xs = Some n \<Longrightarrow> 2 \<le> length (filter (\<lambda>x. x = n) xs)"
  by (induction xs rule: adjacent_duplicate.induct) (auto split: if_splits)

lemma filter_sort_length: "length (filter P (sort xs)) = length (filter P xs)"
  by (simp add: filter_sort)

lemma validate_distinct:
  "distinct (map name (tools s)) \<Longrightarrow> validate_tool_parameters s = Inr (tools s)"
  by (simp add: validate_tool_parameters_def Let_def adjacent_duplicate_distinct)

lemma validate_duplicate:
  assumes "\<not> distinct (map name (tools s))"
  shows "\<exists>n. validate_tool_parameters s = Inl (ToolDuplicated n)
           \<and> 2 \<le> length (filter (\<lambda>t. name t = n) (tools s))"
proof -
  have "\<not> distinct (sort (map name (tools s)))" using assms by simp
  then have "adjacent_duplicate (sort (map name (tools s))) \<noteq> None"
    using adjacent_duplicate_sorted[of "sort (map name (tools s))"] by auto
  then obtain n where n: "adjacent_duplicate (sort (map name (tools s))) = Some n" by auto
  from adjacent_duplicate_twice[OF n]
  have "2 \<le> length (filter (\<lambda>x. x = n) (map name (tools s)))"
    by (simp add: filter_sort_length)
  then have "2 \<le> length (filter (\<lambda>t. name t = n) (tools s))"
    by (simp add: filter_map comp_def)
  with n show ?thesis by (auto simp: validate_tool_parameters_def Let_def)
qed



lemma run_turn_duplicate:
  assumes "validate_tool_parameters s = Inl err"
  shows "run_turn W e s = (Raise err, s\<lparr>history := history_truncate (truncation W) (history s)\<rparr>)"
  using assms by (simp add: run_turn_def Let_def)

text \<open>
  C4, as the code has it. The names of the tools are sorted and each is compared with its
  successor: when the names are distinct the tool parameters are returned, otherwise the
  error names a name that at least two tools carry. The check is made by the loop at the
  start of each turn. So a run on tools that share a name raises the error in its first
  turn, when the user prompt has been appended and before the model is called; and a run
  whose turn budget is not positive never makes the check and returns the max-turns
  message.
\<close>

theorem duplicate_tools_detected_in_first_turn:
  "(distinct (map name (tools s)) \<longrightarrow> validate_tool_parameters s = Inr (tools s))
   \<and> (\<not> distinct (map name (tools s)) \<longrightarrow>
        (\<exists>n. validate_tool_parameters s = Inl (ToolDuplicated n)
            \<and> 2 \<le> length (filter (\<lambda>t. name t = n) (tools s))
            \<and> (0 < max_turns s \<longrightarrow>
                  fst (run_agent_async W instruction files resume s) = Inl (ToolDuplicated n)
                \<and> appended_since s (snd (run_agent_async W instruction files resume s)) =
                    [UserTurn (fst (user_prompt_of W instruction files))
                              (snd (user_prompt_of W instruction files))]
                \<and> model_calls (snd (run_agent_async W instruction files resume s)) = model_calls s))
      \<and> (max_turns s \<le> 0 \<longrightarrow>
            fst (run_agent_async W instruction files resume s) =
              Inr \<lparr>tool_output = ''Agent did not complete after max turns'',
                   tool_result_message = ''Agent did not complete after max turns''\<rparr>))"
proof (intro conjI impI)
  assume "distinct (map name (tools s))"
  then show "validate_tool_parameters s = Inr (tools s)" by (rule validate_distinct)
next
  assume "max_turns s \<le> 0"
  then show "fst (run_agent_async W instruction files resume s) =
              Inr \<lparr>tool_output = ''Agent did not complete after max turns'',
                   tool_result_message = ''Agent did not complete after max turns''\<rparr>"
    unfolding run_agent_async_loop
    by (subst turn_loop.simps) (simp add: max_turns_exit_def Let_def)
next
  assume nd: "\<not> distinct (map name (tools s))"
  from validate_duplicate[OF nd] obtain n where
    v: "validate_tool_parameters s = Inl (ToolDuplicated n)"
    and c: "2 \<le> length (filter (\<lambda>t. name t = n) (tools s))" by blast
  define s1 where "s1 = run_impl_prologue W instruction files (run_agent_async_prologue resume s)"
  have v1: "validate_tool_parameters s1 = Inl (ToolDuplicated n)"
    using v validate_tools_cong[of s1 s] by (simp add: s1_def prologue_frame)
  have a1: "appended (history s1) = appended (history s) @
      [UserTurn (fst (user_prompt_of W instruction files)) (snd (user_prompt_of W instruction files))]"
    by (simp add: s1_def run_impl_prologue_def run_agent_async_prologue_def Let_def
          add_user_prompt_def append_turn_def clear_history_def)
  have run: "run_agent_async W instruction files resume s =
          (Inl (ToolDuplicated n), s1\<lparr>history := history_truncate (truncation W) (history s1)\<rparr>)"
    if "0 < max_turns s"
    unfolding run_agent_async_loop s1_def[symmetric]
    using that run_turn_duplicate[OF v1, of W "env W 0"]
    by (subst turn_loop.simps) simp
  have "0 < max_turns s \<longrightarrow>
                  fst (run_agent_async W instruction files resume s) = Inl (ToolDuplicated n)
                \<and> appended_since s (snd (run_agent_async W instruction files resume s)) =
                    [UserTurn (fst (user_prompt_of W instruction files))
                              (snd (user_prompt_of W instruction files))]
                \<and> model_calls (snd (run_agent_async W instruction files resume s)) = model_calls s"
    using run a1
    by (simp add: appended_since_def history_truncate_def s1_def prologue_frame)
  with v c show "\<exists>n. validate_tool_parameters s = Inl (ToolDuplicated n)
            \<and> 2 \<le> length (filter (\<lambda>t. name t = n) (tools s))
            \<and> (0 < max_turns s \<longrightarrow>
                  fst (run_agent_async W instruction files resume s) = Inl (ToolDuplicated n)
                \<and> appended_since s (snd (run_agent_async W instruction files resume s)) =
                    [UserTurn (fst (user_prompt_of W instruction files))
                              (snd (user_prompt_of W instruction files))]
                \<and> model_calls (snd (run_agent_async W instruction files resume s)) = model_calls s)"
    by blast
qed

theorem duplicate_tools_detected_in_first_turn_witness:
  "validate_tool_parameters (init [bash_tool, bash_tool] empty_history [] 3) =
     Inl (ToolDuplicated ''bash'')
   \<and> fst (run_agent_async
          (constant_world (scripted False [ToolCall call_a] False (''ok'', None) False))
          ''hi'' None False (init [bash_tool, bash_tool] empty_history [] 3)) =
       Inl (ToolDuplicated ''bash'')
   \<and> appended_since (init [bash_tool, bash_tool] empty_history [] 3)
        (snd (run_agent_async
          (constant_world (scripted False [ToolCall call_a] False (''ok'', None) False))
          ''hi'' None False (init [bash_tool, bash_tool] empty_history [] 3))) =
       [UserTurn ''hi'' []]
   \<and> model_calls (snd (run_agent_async
          (constant_world (scripted False [ToolCall call_a] False (''ok'', None) False))
          ''hi'' None False (init [bash_tool, bash_tool] empty_history [] 3))) = 0
   \<and> validate_tool_parameters (init [bash_tool] empty_history [] 3) = Inr [bash_tool]
   \<and> fst (run_agent_async
          (constant_world (scripted False [ToolCall call_a] False (''ok'', None) False))
          ''hi'' None False (init [bash_tool, bash_tool] empty_history [] 0)) =
       Inr \<lparr>tool_output = ''Agent did not complete after max turns'',
            tool_result_message = ''Agent did not complete after max turns''\<rparr>"
proof -
  have v: "validate_tool_parameters (init [bash_tool, bash_tool] empty_history [] 3) =
             Inl (ToolDuplicated ''bash'')"
    by code_simp
  have nd: "\<not> distinct (map name (tools (init [bash_tool, bash_tool] empty_history [] 3)))"
    and pos: "0 < max_turns (init [bash_tool, bash_tool] empty_history [] 3)"
    and m0: "model_calls (init [bash_tool, bash_tool] empty_history [] 3) = 0"
    by (simp_all add: init_def)
  have u: "user_prompt_of
             (constant_world (scripted False [ToolCall call_a] False (''ok'', None) False))
             ''hi'' None = (''hi'', [])"
    by (simp add: user_prompt_of_def)
  from duplicate_tools_detected_in_first_turn
         [where s = "init [bash_tool, bash_tool] empty_history [] 3"
            and W = "constant_world (scripted False [ToolCall call_a] False (''ok'', None) False)"
            and instruction = "''hi''" and files = None and resume = False]
       nd pos v m0 u
  have first: "fst (run_agent_async
          (constant_world (scripted False [ToolCall call_a] False (''ok'', None) False))
          ''hi'' None False (init [bash_tool, bash_tool] empty_history [] 3)) =
       Inl (ToolDuplicated ''bash'')
   \<and> appended_since (init [bash_tool, bash_tool] empty_history [] 3)
        (snd (run_agent_async
          (constant_world (scripted False [ToolCall call_a] False (''ok'', None) False))
          ''hi'' None False (init [bash_tool, bash_tool] empty_history [] 3))) =
       [UserTurn ''hi'' []]
   \<and> model_calls (snd (run_agent_async
          (constant_world (scripted False [ToolCall call_a] False (''ok'', None) False))
          ''hi'' None False (init [bash_tool, bash_tool] empty_history [] 3))) = 0"
    by auto
  have one: "validate_tool_parameters (init [bash_tool] empty_history [] 3) = Inr [bash_tool]"
    using duplicate_tools_detected_in_first_turn
            [where s = "init [bash_tool] empty_history [] 3"]
    by (simp add: init_def)
  have zero: "fst (run_agent_async
          (constant_world (scripted False [ToolCall call_a] False (''ok'', None) False))
          ''hi'' None False (init [bash_tool, bash_tool] empty_history [] 0)) =
       Inr \<lparr>tool_output = ''Agent did not complete after max turns'',
            tool_result_message = ''Agent did not complete after max turns''\<rparr>"
    using duplicate_tools_detected_in_first_turn
            [where s = "init [bash_tool, bash_tool] empty_history [] 0"
               and W = "constant_world (scripted False [ToolCall call_a] False (''ok'', None) False)"
               and instruction = "''hi''" and files = None and resume = False]
    by (simp add: init_def)
  from v first one zero show ?thesis by simp
qed

text \<open>
  An agent with two tools of the same name. Its run with a turn budget of 0 returns
  without any error. Its run with a turn budget of 1 raises the error inside the run:
  the user prompt is then already in the ledger.
\<close>

theorem duplicate_tools_not_detected_at_setup:
  "fst (run_agent_async (constant_world (scripted False [] False ([], None) False)) ''hi'' None False
          (init [bash_tool, bash_tool] empty_history [] 0)) =
       Inr \<lparr>tool_output = ''Agent did not complete after max turns'',
            tool_result_message = ''Agent did not complete after max turns''\<rparr>
   \<and> fst (run_agent_async (constant_world (scripted False [] False ([], None) False)) ''hi'' None False
          (init [bash_tool, bash_tool] empty_history [] 1)) = Inl (ToolDuplicated ''bash'')
   \<and> turns (history (snd (run_agent_async
          (constant_world (scripted False [] False ([], None) False)) ''hi'' None False
          (init [bash_tool, bash_tool] empty_history [] 1)))) = [UserTurn ''hi'' []]"
  by code_simp

subsection \<open>The results of a run\<close>
















subsection \<open>The event consumer\<close>

lemma process_message_no_websocket:
  assumes "websocket p = None"
  shows "process_message p d =
           (if session_id p \<noteq> None \<and> save_raises d then (Some Exception, p)
            else (None, p\<lparr>saved := saved p @ persisted_of (session_id p) [d]\<rparr>))"
  using assms
  by (cases "session_id p") (auto simp add: process_message_def persisted_of_def Let_def)

lemma persisted_of_Cons:
  "persisted_of sid (d # ds) = persisted_of sid [d] @ persisted_of sid ds"
  by (simp add: persisted_of_def split: option.splits)

lemma persisted_of_raises:
  "sid \<noteq> None \<and> save_raises d \<Longrightarrow> persisted_of sid [d] = []"
  by (auto simp add: persisted_of_def split: option.splits)

lemma process_messages_no_websocket:
  assumes "websocket p = None"
  shows "process_messages p ds = (None, p\<lparr>saved := saved p @ persisted_of (session_id p) ds\<rparr>)"
  using assms
proof (induction ds arbitrary: p)
  case Nil
  then show ?case by (simp add: persisted_of_def split: option.splits)
next
  case (Cons d ds)
  show ?case
  proof (cases "session_id p \<noteq> None \<and> save_raises d")
    case True
    then have "process_messages p (d # ds) = process_messages p ds"
      using Cons(2) by (simp add: process_message_no_websocket)
    then show ?thesis
      using Cons(1)[OF Cons(2)] True persisted_of_raises[OF True]
      by (simp add: persisted_of_Cons[of _ d ds])
  next
    case False
    define p' where "p' = p\<lparr>saved := saved p @ persisted_of (session_id p) [d]\<rparr>"
    have w: "websocket p' = None" and sid: "session_id p' = session_id p"
      using Cons(2) by (simp_all add: p'_def)
    have "process_message p d = (None, p')"
      using Cons(2) False by (auto simp add: process_message_no_websocket p'_def)
    then have "process_messages p (d # ds) = process_messages p' ds" by simp
    then show ?thesis
      using Cons(1)[OF w] sid by (simp add: persisted_of_Cons[of _ d ds] p'_def)
  qed
qed

lemma process_messages_returns: "fst (process_messages p ds) = None"
proof (induction ds arbitrary: p)
  case Nil
  then show ?case by simp
next
  case (Cons d ds)
  obtain x p' where pm: "process_message p d = (x, p')" by (cases "process_message p d")
  show ?case
  proof (cases x)
    case None
    with pm Cons show ?thesis by simp
  next
    case (Some ex)
    with pm Cons show ?thesis by (cases ex) simp_all
  qed
qed

text \<open>
  C5. The consumer never ends with an exception. When it takes a message that is not a
  user message while the websocket is set, the saving of the message does not raise and
  \<^verbatim>\<open>send_json\<close> raises, the exception is caught, the websocket is cleared and stays
  cleared, the failed message and every later one are still saved (each one whose own
  saving does not raise, when there is a session), and nothing more is sent.
\<close>

theorem transport_failure_is_contained:
  "fst (process_messages p0 ds) = None
   \<and> (websocket p \<noteq> None \<and> event_type (message d) \<noteq> USER_MESSAGE
        \<and> send_result d = SendRaises \<and> \<not> (session_id p \<noteq> None \<and> save_raises d)
      \<longrightarrow> snd (process_messages p (d # rest)) =
            p\<lparr>websocket := None,
              saved := saved p @ persisted_of (session_id p) (d # rest)\<rparr>
        \<and> websocket (snd (process_messages p (d # rest))) = None
        \<and> sent (snd (process_messages p (d # rest))) = sent p)"
proof (intro conjI impI)
  show "fst (process_messages p0 ds) = None" by (rule process_messages_returns)
next
  assume h: "websocket p \<noteq> None \<and> event_type (message d) \<noteq> USER_MESSAGE
        \<and> send_result d = SendRaises \<and> \<not> (session_id p \<noteq> None \<and> save_raises d)"
  define p' where "p' = p\<lparr>saved := saved p @ persisted_of (session_id p) [d], websocket := None\<rparr>"
  have pm: "process_message p d = (None, p')"
    using h by (cases "session_id p")
      (auto simp add: process_message_def persisted_of_def Let_def p'_def)
  have w: "websocket p' = None" by (simp add: p'_def)
  have r: "process_messages p (d # rest) =
             (None, p'\<lparr>saved := saved p' @ persisted_of (session_id p') rest\<rparr>)"
    using pm process_messages_no_websocket[OF w, of rest] by simp
  show eq: "snd (process_messages p (d # rest)) =
            p\<lparr>websocket := None,
              saved := saved p @ persisted_of (session_id p) (d # rest)\<rparr>"
    unfolding r by (simp add: p'_def persisted_of_Cons[of _ d rest])
  show "websocket (snd (process_messages p (d # rest))) = None" unfolding eq by simp
  show "sent (snd (process_messages p (d # rest))) = sent p" unfolding eq by simp
qed

theorem transport_failure_is_contained_witness:
  "process_messages connected
     [delivered (event AGENT_THINKING ''one'') SendReturns,
      delivered (event TOOL_CALL ''two'') SendReturns,
      delivered (event TOOL_RESULT ''three'') SendRaises,
      delivered (event AGENT_THINKING ''four'') SendReturns,
      delivered (event AGENT_RESPONSE ''five'') SendReturns] =
     (None,
      \<lparr>session_id = Some ''session'', websocket = None,
       saved = [(''session'', event AGENT_THINKING ''one''), (''session'', event TOOL_CALL ''two''),
                (''session'', event TOOL_RESULT ''three''), (''session'', event AGENT_THINKING ''four''),
                (''session'', event AGENT_RESPONSE ''five'')],
       sent = [event AGENT_THINKING ''one'', event TOOL_CALL ''two'']\<rparr>)
   \<and> sent (snd (process_messages
        (connected\<lparr>sent := [event AGENT_THINKING ''one'', event TOOL_CALL ''two'']\<rparr>)
        [delivered (event TOOL_RESULT ''three'') SendRaises,
         delivered (event AGENT_THINKING ''four'') SendReturns,
         delivered (event AGENT_RESPONSE ''five'') SendReturns])) =
       [event AGENT_THINKING ''one'', event TOOL_CALL ''two'']"
proof -
  have "process_messages connected
     [delivered (event AGENT_THINKING ''one'') SendReturns,
      delivered (event TOOL_CALL ''two'') SendReturns,
      delivered (event TOOL_RESULT ''three'') SendRaises,
      delivered (event AGENT_THINKING ''four'') SendReturns,
      delivered (event AGENT_RESPONSE ''five'') SendReturns] =
     (None,
      \<lparr>session_id = Some ''session'', websocket = None,
       saved = [(''session'', event AGENT_THINKING ''one''), (''session'', event TOOL_CALL ''two''),
                (''session'', event TOOL_RESULT ''three''), (''session'', event AGENT_THINKING ''four''),
                (''session'', event AGENT_RESPONSE ''five'')],
       sent = [event AGENT_THINKING ''one'', event TOOL_CALL ''two'']\<rparr>)"
    by (simp add: connected_def delivered_def event_def process_message_def)
  then show ?thesis
    using transport_failure_is_contained
      [where p = "connected\<lparr>sent := [event AGENT_THINKING ''one'', event TOOL_CALL ''two'']\<rparr>"
         and d = "delivered (event TOOL_RESULT ''three'') SendRaises"
         and rest = "[delivered (event AGENT_THINKING ''four'') SendReturns,
                      delivered (event AGENT_RESPONSE ''five'') SendReturns]"]
    by (simp add: connected_def delivered_def event_def)
qed

end
